theory Spec2Isabelle
  imports Complex_Main
begin

section \<open>repokit: a shallow embedding of the command-line tool\<close>

text \<open>
  The JavaScript sources are \<^verbatim>\<open>src/utils/validation.js\<close>, \<^verbatim>\<open>src/utils/config.js\<close>,
  \<^verbatim>\<open>src/utils/ssh.js\<close>, \<^verbatim>\<open>src/utils/git.js\<close>, \<^verbatim>\<open>src/utils/github.js\<close>,
  \<^verbatim>\<open>src/commands/init.js\<close> and \<^verbatim>\<open>src/index.js\<close>.

  A JavaScript string is modelled as a \<^typ>\<open>string\<close>: the sequence of its code units,
  for code units below 256. A function that throws returns \<open>Inl\<close> of the error's message.
\<close>

subsection \<open>String primitives of the runtime\<close>

text \<open>
  \<^verbatim>\<open>String.prototype.trim\<close> and the class \<^verbatim>\<open>\s\<close> of a regular expression remove and
  match white space and line terminators: below 256 these are TAB, LF, VT, FF, CR, SPACE
  and NBSP.
\<close>

definition js_space :: "char \<Rightarrow> bool" where
  "js_space c = (c \<in> set [CHR 0x09, CHR 0x0A, CHR 0x0B, CHR 0x0C, CHR 0x0D, CHR 0x20, CHR 0xA0])"

text \<open>The dot of a regular expression matches every character but a line terminator.\<close>

definition js_line_terminator :: "char \<Rightarrow> bool" where
  "js_line_terminator c = (c \<in> set [CHR 0x0A, CHR 0x0D])"

definition js_trim :: "string \<Rightarrow> string" where
  "js_trim s = rev (dropWhile js_space (rev (dropWhile js_space s)))"

definition js_startsWith :: "string \<Rightarrow> string \<Rightarrow> bool" where
  "js_startsWith s p = (take (length p) s = p)"

text \<open>\<^verbatim>\<open>s.includes(sub)\<close>: \<open>sub\<close> occurs in \<open>s\<close> at some position.\<close>

primrec js_includes :: "string \<Rightarrow> string \<Rightarrow> bool" where
  "js_includes [] sub = (sub = [])"
| "js_includes (c # cs) sub = (take (length sub) (c # cs) = sub \<or> js_includes cs sub)"

subsection \<open>The name validator (\<^verbatim>\<open>src/utils/validation.js\<close>)\<close>

definition MAX_PROJECT_NAME_LENGTH :: nat where
  "MAX_PROJECT_NAME_LENGTH = 100"

text \<open>\<^verbatim>\<open>VALID_NAME_PATTERN = /^[a-zA-Z0-9._-]+$/\<close>: one character of the class.\<close>

definition name_char :: "char \<Rightarrow> bool" where
  "name_char c =
     (c \<in> set ''abcdefghijklmnopqrstuvwxyzABCDEFGHIJKLMNOPQRSTUVWXYZ0123456789._-'')"

definition VALID_NAME_PATTERN_test :: "string \<Rightarrow> bool" where
  "VALID_NAME_PATTERN_test s = (s \<noteq> [] \<and> list_all name_char s)"

text \<open>
  \<^verbatim>\<open>validateProjectName(name)\<close> on a string argument. The empty string is falsy, so the
  first test throws on it; \<^verbatim>\<open>typeof name !== 'string'\<close> is false for every string.
\<close>

definition validateProjectName :: "string \<Rightarrow> string + string" where
  "validateProjectName name =
     (if name = [] then Inl ''Project name is required''
      else let trimmedName = js_trim name in
        if length trimmedName = 0 then Inl ''Project name cannot be empty''
        else if length trimmedName > MAX_PROJECT_NAME_LENGTH
          then Inl ''Project name must be 100 characters or less''
        else if js_startsWith trimmedName ''.''
          then Inl ''Project name cannot start with a period''
        else if js_startsWith trimmedName ''-''
          then Inl ''Project name cannot start with a hyphen''
        else if \<not> VALID_NAME_PATTERN_test trimmedName
          then Inl ''Project name can only contain letters, numbers, hyphens, underscores, and periods''
        else if js_includes trimmedName ''..''
          then Inl ''Project name cannot contain \"..\"''
        else Inr trimmedName)"

text \<open>\<^verbatim>\<open>export const validateGitHubName = validateProjectName\<close>\<close>

definition validateGitHubName :: "string \<Rightarrow> string + string" where
  "validateGitHubName = validateProjectName"

text \<open>
  The rules as the specification lists them, on the trimmed name: the first rule that the
  name violates, and the rule that each message of the validator reports.
\<close>

datatype name_rule = NonEmpty | MaxLength | NoLeadingPeriod | NoLeadingHyphen | Charset | NoDotDot

definition name_accepted :: "string \<Rightarrow> bool" where
  "name_accepted t =
     (t \<noteq> [] \<and> length t \<le> 100 \<and> \<not> js_startsWith t ''.'' \<and> \<not> js_startsWith t ''-''
      \<and> list_all name_char t \<and> \<not> js_includes t ''..'')"

definition first_violated :: "string \<Rightarrow> name_rule option" where
  "first_violated t =
     (if t = [] then Some NonEmpty
      else if length t > 100 then Some MaxLength
      else if js_startsWith t ''.'' then Some NoLeadingPeriod
      else if js_startsWith t ''-'' then Some NoLeadingHyphen
      else if \<not> list_all name_char t then Some Charset
      else if js_includes t ''..'' then Some NoDotDot
      else None)"

definition message_rule :: "string \<Rightarrow> name_rule option" where
  "message_rule m =
     (if m = ''Project name is required'' then Some NonEmpty
      else if m = ''Project name cannot be empty'' then Some NonEmpty
      else if m = ''Project name must be 100 characters or less'' then Some MaxLength
      else if m = ''Project name cannot start with a period'' then Some NoLeadingPeriod
      else if m = ''Project name cannot start with a hyphen'' then Some NoLeadingHyphen
      else if m = ''Project name can only contain letters, numbers, hyphens, underscores, and periods''
        then Some Charset
      else if m = ''Project name cannot contain \"..\"'' then Some NoDotDot
      else None)"

subsection \<open>More string primitives\<close>

text \<open>
  The match of a regular expression \<^verbatim>\<open>/^KEYWORD\s+(.+)$/i\<close> against a string, giving
  the captured group. The flag \<^verbatim>\<open>i\<close> compares the upper-case forms; only the ASCII
  letters have an ASCII upper-case form. \<^verbatim>\<open>\s+\<close> is greedy and gives back characters
  only when the rest fails, and \<^verbatim>\<open>(.+)$\<close> must reach the end of the string without
  a line terminator.
\<close>

definition ascii_upper :: "char \<Rightarrow> char" where
  "ascii_upper c =
     (case map_of (zip ''abcdefghijklmnopqrstuvwxyz'' ''ABCDEFGHIJKLMNOPQRSTUVWXYZ'') c of
        Some u \<Rightarrow> u
      | None \<Rightarrow> c)"

definition match_directive :: "string \<Rightarrow> string \<Rightarrow> string option" where
  "match_directive keyword s =
     (if map ascii_upper (take (length keyword) s) \<noteq> map ascii_upper keyword then None
      else let rest = drop (length keyword) s;
               spaces = takeWhile js_space rest;
               captured = dropWhile js_space rest
           in if spaces = [] then None
              else if captured \<noteq> [] then
                (if list_ex js_line_terminator captured then None else Some captured)
              else if 2 \<le> length spaces \<and> \<not> js_line_terminator (last spaces)
                then Some [last spaces]
              else None)"

text \<open>\<^verbatim>\<open>content.split('\n')\<close>\<close>

fun js_split :: "char \<Rightarrow> string \<Rightarrow> string list" where
  "js_split sep [] = [[]]"
| "js_split sep (c # cs) =
     (if c = sep then [] # js_split sep cs
      else (case js_split sep cs of
              l # ls \<Rightarrow> (c # l) # ls
            | [] \<Rightarrow> [[c]]))"

text \<open>
  \<^verbatim>\<open>s.replace(pattern, replacement)\<close> with a string pattern replaces the first occurrence
  only, and reads \<^verbatim>\<open>$$\<close>, \<^verbatim>\<open>$&\<close>, \<^verbatim>\<open>$`\<close> and \<^verbatim>\<open>$'\<close> in the replacement as
  a dollar sign, the match, the text before it and the text after it. There is no
  capture group, so \<^verbatim>\<open>$1\<close> and the like stand for themselves.
\<close>

fun split_first :: "string \<Rightarrow> string \<Rightarrow> (string \<times> string) option" where
  "split_first pat [] = (if pat = [] then Some ([], []) else None)"
| "split_first pat (c # cs) =
     (if take (length pat) (c # cs) = pat then Some ([], drop (length pat) (c # cs))
      else map_option (\<lambda>(pre, post). (c # pre, post)) (split_first pat cs))"

fun get_substitution :: "string \<Rightarrow> string \<Rightarrow> string \<Rightarrow> string \<Rightarrow> string" where
  "get_substitution matched pre post [] = []"
| "get_substitution matched pre post [c] = [c]"
| "get_substitution matched pre post (c # d # r) =
     (if c = CHR ''$'' \<and> d = CHR ''$'' then CHR ''$'' # get_substitution matched pre post r
      else if c = CHR ''$'' \<and> d = CHR ''&'' then matched @ get_substitution matched pre post r
      else if c = CHR ''$'' \<and> d = CHR 0x60 then pre @ get_substitution matched pre post r
      else if c = CHR ''$'' \<and> d = CHR 0x27 then post @ get_substitution matched pre post r
      else c # get_substitution matched pre post (d # r))"

definition js_replace :: "string \<Rightarrow> string \<Rightarrow> string \<Rightarrow> string" where
  "js_replace s pat replacement =
     (case split_first pat s of
        None \<Rightarrow> s
      | Some (pre, post) \<Rightarrow> pre @ get_substitution pat pre post replacement @ post)"

text \<open>
  \<^verbatim>\<open>path.join(dir, segment)\<close> and \<^verbatim>\<open>path.resolve(dir, segment)\<close> for a normalised
  absolute directory and a segment that is a plain file name.
\<close>

definition path_join :: "string \<Rightarrow> string \<Rightarrow> string" where
  "path_join dir segment = (if dir = ''/'' then ''/'' @ segment else dir @ ''/'' @ segment)"

subsection \<open>JavaScript values\<close>

datatype jsval =
    Undefined
  | Null
  | Bool bool
  | Num real
  | Str string
  | Arr "jsval list"
  | Obj "(string \<times> jsval) list"

type_synonym jsobject = "(string \<times> jsval) list"

fun truthy :: "jsval \<Rightarrow> bool" where
  "truthy Undefined = False"
| "truthy Null = False"
| "truthy (Bool b) = b"
| "truthy (Num x) = (x \<noteq> 0)"
| "truthy (Str s) = (s \<noteq> [])"
| "truthy (Arr xs) = True"
| "truthy (Obj kvs) = True"

text \<open>Reading a property: \<^verbatim>\<open>undefined\<close> when the object has none of that name.\<close>

definition prop_get :: "jsobject \<Rightarrow> string \<Rightarrow> jsval" where
  "prop_get obj k = (case map_of obj k of Some v \<Rightarrow> v | None \<Rightarrow> Undefined)"

text \<open>Assigning a property keeps the position of a key the object has, and appends a new one.\<close>

fun prop_set :: "string \<Rightarrow> jsval \<Rightarrow> jsobject \<Rightarrow> jsobject" where
  "prop_set k v [] = [(k, v)]"
| "prop_set k v ((k', v') # kvs) =
     (if k' = k then (k, v) # kvs else (k', v') # prop_set k v kvs)"

fun show_nat :: "nat \<Rightarrow> string" where
  "show_nat n =
     (if n < 10 then [char_of (48 + n)]
      else show_nat (n div 10) @ [char_of (48 + n mod 10)])"

text \<open>
  The own enumerable properties that an object spread \<^verbatim>\<open>{...v}\<close> copies: those of an
  object, the indices of an array or of a string, none of any other value.
\<close>

fun own_props :: "jsval \<Rightarrow> (string \<times> jsval) list" where
  "own_props (Obj kvs) = kvs"
| "own_props (Arr xs) = zip (map show_nat [0..<length xs]) xs"
| "own_props (Str s) = zip (map show_nat [0..<length s]) (map (\<lambda>c. Str [c]) s)"
| "own_props v = []"

text \<open>\<^verbatim>\<open>{ ...a, ...v }\<close>\<close>

definition spread :: "jsobject \<Rightarrow> jsval \<Rightarrow> jsobject" where
  "spread a v = foldl (\<lambda>obj (k, w). prop_set k w obj) a (own_props v)"

subsection \<open>The SSH identity lister (\<^verbatim>\<open>src/utils/ssh.js\<close>)\<close>

text \<open>The object \<^verbatim>\<open>currentHost\<close> of the loop, and an entry of the returned array.\<close>

record host_block =
  h_host :: string
  h_name :: string
  h_identityFile :: "string option"
  h_isGitHub :: bool

record ssh_key =
  k_name :: string
  k_host :: string
  k_identityFile :: "string option"

text \<open>
  The body of \<^verbatim>\<open>for (const line of lines)\<close>: the loop's state is the array \<open>hosts\<close>
  and \<open>currentHost\<close> (\<open>None\<close> for \<^verbatim>\<open>null\<close>). First the part after
  \<^verbatim>\<open>if (!currentHost) continue\<close>, which updates the current block.
\<close>

definition block_line :: "string \<Rightarrow> host_block \<Rightarrow> string \<Rightarrow> host_block" where
  "block_line home cur trimmed =
     (case match_directive ''HostName'' trimmed of
        Some hostName \<Rightarrow> (if hostName = ''github.com'' then cur\<lparr> h_isGitHub := True \<rparr> else cur)
      | None \<Rightarrow>
          (case match_directive ''IdentityFile'' trimmed of
             Some path \<Rightarrow> cur\<lparr> h_identityFile := Some (js_replace path ''~'' home) \<rparr>
           | None \<Rightarrow> cur))"

definition ssh_line :: "string \<Rightarrow> host_block list \<times> host_block option \<Rightarrow> string
    \<Rightarrow> host_block list \<times> host_block option" where
  "ssh_line home acc line =
     (let hosts = fst acc; currentHost = snd acc; trimmed = js_trim line in
      case match_directive ''Host'' trimmed of
        Some hostValue \<Rightarrow>
          ((case currentHost of
              Some cur \<Rightarrow> if h_isGitHub cur then hosts @ [cur] else hosts
            | None \<Rightarrow> hosts),
           Some \<lparr> h_host = hostValue, h_name = hostValue, h_identityFile = None,
                  h_isGitHub = js_includes hostValue ''github.com'' \<rparr>)
      | None \<Rightarrow>
          (case currentHost of
             None \<Rightarrow> (hosts, None)
           | Some cur \<Rightarrow> (hosts, Some (block_line home cur trimmed))))"

text \<open>The callback of \<^verbatim>\<open>hosts.map\<close>: the friendly name of a host alias.\<close>

definition friendly_name :: "string \<Rightarrow> string" where
  "friendly_name alias =
     (if js_startsWith alias ''github.com-'' then js_replace alias ''github.com-'' []
      else if alias = ''github.com'' then ''default''
      else alias)"

definition ssh_entry :: "host_block \<Rightarrow> ssh_key" where
  "ssh_entry h = \<lparr> k_name = friendly_name (h_host h), k_host = h_host h,
                   k_identityFile = h_identityFile h \<rparr>"

text \<open>
  \<^verbatim>\<open>getGitHubSSHKeys\<close> on the content of the SSH configuration file, read as a whole:
  the loop, the flush of the last block, and the map to entries.
\<close>

definition parse_ssh_config :: "string \<Rightarrow> string \<Rightarrow> ssh_key list" where
  "parse_ssh_config home content =
     (let lines = js_split CHR 0x0A content;
          final = foldl (ssh_line home) ([], None) lines;
          hosts = (case snd final of
                     Some cur \<Rightarrow> if h_isGitHub cur then fst final @ [cur] else fst final
                   | None \<Rightarrow> fst final)
      in map ssh_entry hosts)"

text \<open>\<^verbatim>\<open>getSSHCommand(identityFile)\<close>\<close>

definition getSSHCommand :: "string \<Rightarrow> string" where
  "getSSHCommand identityFile = ''ssh -i '' @ identityFile"

text \<open>
  The host blocks as the specification describes them: a \<open>Host\<close> line opens a block
  that holds the lines up to the next \<open>Host\<close> line; the lines before the first
  \<open>Host\<close> line belong to no block.
\<close>

fun host_blocks :: "string list \<Rightarrow> (string \<times> string list) list" where
  "host_blocks [] = []"
| "host_blocks (l # ls) =
     (case match_directive ''Host'' l of
        Some alias \<Rightarrow> (alias, takeWhile (\<lambda>x. match_directive ''Host'' x = None) ls)
                        # host_blocks ls
      | None \<Rightarrow> host_blocks ls)"

text \<open>
  A block is related to the hosting provider when its alias contains the canonical host
  name or one of its \<open>HostName\<close> lines gives exactly that name; its identity is the
  one of its last \<open>IdentityFile\<close> line.
\<close>

definition block_related :: "string \<times> string list \<Rightarrow> bool" where
  "block_related b =
     (js_includes (fst b) ''github.com''
      \<or> list_ex (\<lambda>l. match_directive ''HostName'' l = Some ''github.com'') (snd b))"

definition identity_lines :: "string list \<Rightarrow> string list" where
  "identity_lines body =
     List.map_filter (match_directive ''IdentityFile'')
       (filter (\<lambda>l. match_directive ''HostName'' l = None) body)"

definition block_identity :: "string \<Rightarrow> string list \<Rightarrow> string option" where
  "block_identity home body =
     (case rev (identity_lines body) of
        [] \<Rightarrow> None
      | path # _ \<Rightarrow> Some (js_replace path ''~'' home))"

definition block_entry :: "string \<Rightarrow> string \<times> string list \<Rightarrow> ssh_key" where
  "block_entry home b = \<lparr> k_name = friendly_name (fst b), k_host = fst b,
                          k_identityFile = block_identity home (snd b) \<rparr>"

subsection \<open>The environment: file system, subprocesses, console\<close>

text \<open>
  A run changes the file system and leaves a trace of events: the calls that act on the
  world (\<^verbatim>\<open>mkdirSync\<close>, \<^verbatim>\<open>writeFileSync\<close>, \<^verbatim>\<open>execSync\<close>), each recorded when it is
  made, and the error reports (\<^verbatim>\<open>console.error\<close>, \<^verbatim>\<open>console.warn\<close> and the failure
  line of a spinner), without their colours. Progress output is not recorded.
\<close>

datatype event =
    Mkdir string
  | WriteFile string string
  | Exec string "string option"
  | ConsoleError string
  | ConsoleWarn string
  | SpinnerFail string

datatype node = Dir | File string

record state =
  fs :: "string \<rightharpoonup> node"
  events :: "event list"

text \<open>
  What the run cannot decide by itself is a parameter: the working directory and the home
  directory, the result of a subprocess (\<open>Inl\<close> the error's message when it exits
  non-zero, \<open>Inr\<close> its standard output), whether a file system call fails, the
  runtime's \<^verbatim>\<open>JSON.parse\<close> (\<open>None\<close> when it throws) and \<^verbatim>\<open>JSON.stringify\<close>, and
  the answer to the interactive prompt (\<open>None\<close> when the prompt is closed).
\<close>

record env =
  cwd :: string
  homedir :: string
  execSync :: "string \<Rightarrow> string option \<Rightarrow> string + string"
  mkdir_error :: "string \<Rightarrow> string option"
  write_error :: "string \<Rightarrow> string option"
  read_error :: "string \<Rightarrow> string option"
  JSON_parse :: "string \<Rightarrow> jsval option"
  JSON_stringify :: "jsval \<Rightarrow> string"
  pick :: "nat option"

text \<open>How a command ends: it returns, it calls \<^verbatim>\<open>process.exit\<close>, or an exception escapes.\<close>

datatype outcome = Completed | Exit nat | Uncaught string

type_synonym 'a io = "state \<Rightarrow> state \<times> (string + 'a)"

type_synonym proc = "state \<Rightarrow> state \<times> outcome"

definition emit :: "event \<Rightarrow> state \<Rightarrow> state" where
  "emit e st = st\<lparr> events := events st @ [e] \<rparr>"

definition existsSync :: "state \<Rightarrow> string \<Rightarrow> bool" where
  "existsSync st p = (fs st p \<noteq> None)"

definition readFileSync :: "env \<Rightarrow> string \<Rightarrow> string io" where
  "readFileSync e p st =
     (case fs st p of
        Some (File content) \<Rightarrow>
          (case read_error e p of Some msg \<Rightarrow> (st, Inl msg) | None \<Rightarrow> (st, Inr content))
      | Some Dir \<Rightarrow> (st, Inl ''EISDIR: illegal operation on a directory, read'')
      | None \<Rightarrow> (st, Inl ''ENOENT: no such file or directory''))"

definition writeFileSync :: "env \<Rightarrow> string \<Rightarrow> string \<Rightarrow> unit io" where
  "writeFileSync e p content st =
     (let st1 = emit (WriteFile p content) st in
      case write_error e p of
        Some msg \<Rightarrow> (st1, Inl msg)
      | None \<Rightarrow> (st1\<lparr> fs := (fs st1)(p \<mapsto> File content) \<rparr>, Inr ()))"

definition mkdirSync :: "env \<Rightarrow> string \<Rightarrow> unit io" where
  "mkdirSync e p st =
     (let st1 = emit (Mkdir p) st in
      case mkdir_error e p of
        Some msg \<Rightarrow> (st1, Inl msg)
      | None \<Rightarrow> (st1\<lparr> fs := (fs st1)(p \<mapsto> Dir) \<rparr>, Inr ()))"

text \<open>
  \<^verbatim>\<open>function exec(command, options)\<close> of \<^verbatim>\<open>git.js\<close> and \<^verbatim>\<open>github.js\<close>:
  \<^verbatim>\<open>execSync(command, { encoding: 'utf-8', ...options }).trim()\<close>
\<close>

definition exec :: "env \<Rightarrow> string \<Rightarrow> string option \<Rightarrow> string io" where
  "exec e command dir st =
     (let st1 = emit (Exec command dir) st in
      case execSync e command dir of
        Inl msg \<Rightarrow> (st1, Inl msg)
      | Inr out \<Rightarrow> (st1, Inr (js_trim out)))"

text \<open>Sequencing of two calls that may throw: the second runs only when the first returns.\<close>

definition and_then :: "'a io \<Rightarrow> ('a \<Rightarrow> 'b io) \<Rightarrow> 'b io" where
  "and_then m f st = (case m st of (st1, Inl msg) \<Rightarrow> (st1, Inl msg) | (st1, Inr x) \<Rightarrow> f x st1)"

subsection \<open>The preference store (\<^verbatim>\<open>src/utils/config.js\<close>)\<close>

definition CONFIG_FILE :: "env \<Rightarrow> string" where
  "CONFIG_FILE e = path_join (homedir e) ''.repokitrc''"

definition DEFAULT_CONFIG :: jsobject where
  "DEFAULT_CONFIG = [(''defaultOrg'', Null), (''defaultVisibility'', Str ''private'')]"

text \<open>
  \<^verbatim>\<open>loadConfig\<close>: the \<^verbatim>\<open>catch\<close> takes whatever \<^verbatim>\<open>readFileSync\<close> or \<^verbatim>\<open>JSON.parse\<close>
  throws.
\<close>

definition loadConfig :: "env \<Rightarrow> jsobject io" where
  "loadConfig e st =
     (if \<not> existsSync st (CONFIG_FILE e) then (st, Inr DEFAULT_CONFIG)
      else
        (case and_then (readFileSync e (CONFIG_FILE e))
                (\<lambda>content s. case JSON_parse e content of
                    None \<Rightarrow> (s, Inl ''SyntaxError'')
                  | Some userConfig \<Rightarrow> (s, Inr (spread DEFAULT_CONFIG userConfig))) st of
           (st1, Inr config) \<Rightarrow> (st1, Inr config)
         | (st1, Inl error) \<Rightarrow>
             (emit (ConsoleWarn (''Warning: Could not parse '' @ CONFIG_FILE e @ '', using defaults'')) st1,
              Inr DEFAULT_CONFIG)))"

definition saveConfig :: "env \<Rightarrow> jsobject \<Rightarrow> unit io" where
  "saveConfig e config st =
     (case writeFileSync e (CONFIG_FILE e) (JSON_stringify e (Obj config)) st of
        (st1, Inr u) \<Rightarrow> (st1, Inr ())
      | (st1, Inl msg) \<Rightarrow> (st1, Inl (''Failed to save config: '' @ msg)))"

definition getConfigPath :: "env \<Rightarrow> string" where
  "getConfigPath e = CONFIG_FILE e"

definition configExists :: "env \<Rightarrow> state \<Rightarrow> bool" where
  "configExists e st = existsSync st (CONFIG_FILE e)"

text \<open>The merge of the specification: a field of \<open>p\<close> overrides the default of that name.\<close>

definition merge_fields :: "jsobject \<Rightarrow> jsobject \<Rightarrow> string \<Rightarrow> jsval" where
  "merge_fields defaults p k =
     (case map_of p k of Some v \<Rightarrow> v | None \<Rightarrow> prop_get defaults k)"

subsection \<open>The preference command (\<^verbatim>\<open>src/index.js\<close>)\<close>

text \<open>The options of \<^verbatim>\<open>config\<close> as commander passes them: an option not given is absent.\<close>

record config_options =
  c_org :: "string option"
  c_visibility :: "string option"
  c_show :: bool

text \<open>An option is truthy when it is given and is not the empty string.\<close>

definition given :: "string option \<Rightarrow> bool" where
  "given x = (case x of Some s \<Rightarrow> s \<noteq> [] | None \<Rightarrow> False)"

definition save_and_return :: "env \<Rightarrow> jsobject \<Rightarrow> proc" where
  "save_and_return e config st =
     (case saveConfig e config st of
        (st1, Inr u) \<Rightarrow> (st1, Completed)
      | (st1, Inl msg) \<Rightarrow> (st1, Uncaught msg))"

definition configCommand :: "env \<Rightarrow> config_options \<Rightarrow> proc" where
  "configCommand e options st0 =
     (case loadConfig e st0 of
        (st, Inl msg) \<Rightarrow> (st, Uncaught msg)
      | (st, Inr config) \<Rightarrow>
          if c_show options \<or> (\<not> given (c_org options) \<and> \<not> given (c_visibility options))
          then (st, Completed)
          else
            let config1 =
                  (case c_org options of
                     None \<Rightarrow> config
                   | Some org \<Rightarrow>
                       if org = [] then config
                       else if org = ''personal'' then prop_set ''defaultOrg'' Null config
                       else prop_set ''defaultOrg'' (Str org) config)
            in (case c_visibility options of
                  None \<Rightarrow> save_and_return e config1 st
                | Some visibility \<Rightarrow>
                    if visibility = [] then save_and_return e config1 st
                    else if visibility \<notin> set [''public'', ''private'']
                      then (emit (ConsoleError ''Visibility must be \"public\" or \"private\"'') st, Exit 1)
                    else save_and_return e (prop_set ''defaultVisibility'' (Str visibility) config1) st))"

subsection \<open>The version-control adapter (\<^verbatim>\<open>src/utils/git.js\<close>)\<close>

definition isGitRepo :: "state \<Rightarrow> string \<Rightarrow> bool" where
  "isGitRepo st dir = existsSync st (path_join dir ''.git'')"

definition gitInit :: "env \<Rightarrow> string \<Rightarrow> string io" where
  "gitInit e dir = exec e ''git init'' (Some dir)"

definition gitAddAll :: "env \<Rightarrow> string \<Rightarrow> string io" where
  "gitAddAll e dir = exec e ''git add -A'' (Some dir)"

definition gitCommit :: "env \<Rightarrow> string \<Rightarrow> string \<Rightarrow> string io" where
  "gitCommit e dir message = exec e (''git commit -m \"'' @ message @ ''\"'') (Some dir)"

definition gitAddRemote :: "env \<Rightarrow> string \<Rightarrow> string \<Rightarrow> string io" where
  "gitAddRemote e dir url = exec e (''git remote add origin '' @ url) (Some dir)"

text \<open>
  \<^verbatim>\<open>export function gitPush(dir, branch = 'main')\<close> has two parameters; a call with a
  third argument passes it to no parameter.
\<close>

definition gitPush :: "env \<Rightarrow> string \<Rightarrow> string \<Rightarrow> string io" where
  "gitPush e dir branch = exec e (''git push -u origin '' @ branch) (Some dir)"

definition gitRenameBranch :: "env \<Rightarrow> string \<Rightarrow> string \<Rightarrow> string io" where
  "gitRenameBranch e dir newName = exec e (''git branch -M '' @ newName) (Some dir)"

subsection \<open>The hosting-provider adapter (\<^verbatim>\<open>src/utils/github.js\<close>)\<close>

text \<open>A check reduces the success of its command to a boolean and never throws.\<close>

definition succeeds :: "string io \<Rightarrow> state \<Rightarrow> state \<times> bool" where
  "succeeds m st = (case m st of (st1, Inr out) \<Rightarrow> (st1, True) | (st1, Inl msg) \<Rightarrow> (st1, False))"

definition isGhInstalled :: "env \<Rightarrow> state \<Rightarrow> state \<times> bool" where
  "isGhInstalled e = succeeds (exec e ''which gh'' None)"

definition isGhAuthenticated :: "env \<Rightarrow> state \<Rightarrow> state \<times> bool" where
  "isGhAuthenticated e = succeeds (exec e ''gh auth status'' None)"

definition getGhUsername :: "env \<Rightarrow> string io" where
  "getGhUsername e = exec e ''gh api user --jq .login'' None"

text \<open>
  The organization after the validation of \<^verbatim>\<open>initCommand\<close>: \<open>None\<close> for a falsy
  value, which every later test of \<^verbatim>\<open>org\<close> takes as the personal account.
\<close>

definition repo_full_name :: "string option \<Rightarrow> string \<Rightarrow> string" where
  "repo_full_name org name = (case org of Some owner \<Rightarrow> owner @ ''/'' @ name | None \<Rightarrow> name)"

definition repoExists :: "env \<Rightarrow> string \<Rightarrow> string option \<Rightarrow> state \<Rightarrow> state \<times> bool" where
  "repoExists e name org = succeeds (exec e (''gh repo view '' @ repo_full_name org name) None)"

definition visibility_flag :: "bool \<Rightarrow> string" where
  "visibility_flag isPublic = (if isPublic then ''--public'' else ''--private'')"

definition createRepoOnly :: "env \<Rightarrow> string \<Rightarrow> bool \<Rightarrow> string option \<Rightarrow> string io" where
  "createRepoOnly e name isPublic org =
     and_then
       (case org of
          Some owner \<Rightarrow> (\<lambda>st. (st, Inr (owner @ ''/'' @ name)))
        | None \<Rightarrow> and_then (getGhUsername e) (\<lambda>username st. (st, Inr (username @ ''/'' @ name))))
       (\<lambda>fullName.
          and_then (exec e (''gh repo create '' @ fullName @ '' '' @ visibility_flag isPublic) None)
            (\<lambda>out st. (st, Inr (''git@github.com:'' @ fullName @ ''.git''))))"

text \<open>
  \<^verbatim>\<open>getGitHubSSHKeys\<close> of \<^verbatim>\<open>src/utils/ssh.js\<close>, with
  \<^verbatim>\<open>SSH_CONFIG_PATH = join(homedir(), '.ssh', 'config')\<close>: the read is in no
  \<^verbatim>\<open>try\<close>, so what it throws reaches the caller.
\<close>

definition SSH_CONFIG_PATH :: "env \<Rightarrow> string" where
  "SSH_CONFIG_PATH e = path_join (path_join (homedir e) ''.ssh'') ''config''"

definition getGitHubSSHKeys :: "env \<Rightarrow> ssh_key list io" where
  "getGitHubSSHKeys e st =
     (if \<not> existsSync st (SSH_CONFIG_PATH e) then (st, Inr [])
      else and_then (readFileSync e (SSH_CONFIG_PATH e))
             (\<lambda>content s. (s, Inr (parse_ssh_config (homedir e) content))) st)"

subsection \<open>The provisioning workflow (\<^verbatim>\<open>src/commands/init.js\<close>)\<close>

text \<open>The options of \<^verbatim>\<open>init\<close> as commander passes them: a flag not given is falsy.\<close>

record init_options =
  opt_public :: bool
  opt_private :: bool
  opt_here :: bool
  opt_force :: bool
  opt_org :: "string option"

text \<open>The local variables of \<^verbatim>\<open>initCommand\<close> that the steps read.\<close>

record request =
  r_projectName :: string
  r_isPublic :: bool
  r_org :: "string option"
  r_targetDir :: string
  r_useCurrentDir :: bool
  r_force :: bool

definition createReadme :: "env \<Rightarrow> string \<Rightarrow> string \<Rightarrow> unit io" where
  "createReadme e dir name =
     writeFileSync e (path_join dir ''README.md'') (''# '' @ name @ [CHR 0x0A])"

text \<open>
  A step of the workflow:
  \<^verbatim>\<open>try { body } catch (error) { spinner.fail(text(error.message)); process.exit(1); }\<close>
  and then the rest of the function.
\<close>

definition failure_text :: "string \<Rightarrow> string \<Rightarrow> string" where
  "failure_text what msg = what @ msg"

definition try_step :: "'a io \<Rightarrow> (string \<Rightarrow> string) \<Rightarrow> ('a \<Rightarrow> proc) \<Rightarrow> proc" where
  "try_step body failure rest st =
     (case body st of
        (st1, Inl msg) \<Rightarrow> (emit (SpinnerFail (failure msg)) st1, Exit 1)
      | (st1, Inr x) \<Rightarrow> rest x st1)"

text \<open>A call outside every \<^verbatim>\<open>try\<close>: what it throws ends the command.\<close>

definition bare_call :: "'a io \<Rightarrow> ('a \<Rightarrow> proc) \<Rightarrow> proc" where
  "bare_call body rest st =
     (case body st of
        (st1, Inl msg) \<Rightarrow> (st1, Uncaught msg)
      | (st1, Inr x) \<Rightarrow> rest x st1)"

text \<open>
  The visibility: \<^verbatim>\<open>options.public\<close>, else \<^verbatim>\<open>options.private\<close>, else
  \<^verbatim>\<open>config.defaultVisibility === 'public'\<close>.
\<close>

definition resolve_isPublic :: "init_options \<Rightarrow> jsobject \<Rightarrow> bool" where
  "resolve_isPublic options config =
     (if opt_public options then True
      else if opt_private options then False
      else prop_get config ''defaultVisibility'' = Str ''public'')"

text \<open>\<^verbatim>\<open>options.org ?? config.defaultOrg\<close>\<close>

definition resolve_org :: "init_options \<Rightarrow> jsobject \<Rightarrow> jsval" where
  "resolve_org options config =
     (case opt_org options of Some s \<Rightarrow> Str s | None \<Rightarrow> prop_get config ''defaultOrg'')"

text \<open>
  \<^verbatim>\<open>if (org) { validateGitHubName(org) }\<close>: a truthy value that is not a string fails
  the first test of the validator. The validated name is dropped: \<^verbatim>\<open>org\<close> stays as given.
\<close>

definition check_org :: "jsval \<Rightarrow> string + string option" where
  "check_org v =
     (if \<not> truthy v then Inr None
      else (case v of
              Str s \<Rightarrow> (case validateGitHubName s of Inl msg \<Rightarrow> Inl msg | Inr t \<Rightarrow> Inr (Some s))
            | _ \<Rightarrow> Inl ''Project name is required''))"

text \<open>Step 7 chooses the identity: none, the only one, or the one picked at the prompt.\<close>

definition select_identity :: "env \<Rightarrow> ssh_key list \<Rightarrow> string option io" where
  "select_identity e sshKeys st =
     (case sshKeys of
        [] \<Rightarrow> (st, Inr None)
      | [k] \<Rightarrow> (st, Inr (k_identityFile k))
      | _ \<Rightarrow> (case pick e of
                None \<Rightarrow> (st, Inl ''User force closed the prompt'')
              | Some n \<Rightarrow> (st, Inr (k_identityFile (sshKeys ! (n mod length sshKeys))))))"

text \<open>
  Steps 1 to 7 (lines 352 to 455). Each step takes the rest of the function as its last
  argument. Step 1 is skipped with \<^verbatim>\<open>--here\<close>.
\<close>

definition create_dir_step :: "env \<Rightarrow> request \<Rightarrow> proc \<Rightarrow> proc" where
  "create_dir_step e rq rest st =
     (if r_useCurrentDir rq then rest st
      else if existsSync st (r_targetDir rq)
        then (emit (SpinnerFail (''Directory \"'' @ r_projectName rq @ ''\" already exists'')) st, Exit 1)
      else try_step (mkdirSync e (r_targetDir rq)) (failure_text ''Failed to create directory: '')
             (\<lambda>u. rest) st)"

definition readme_step :: "env \<Rightarrow> request \<Rightarrow> proc \<Rightarrow> proc" where
  "readme_step e rq rest =
     try_step (createReadme e (r_targetDir rq) (r_projectName rq))
       (failure_text ''Failed to create README.md: '') (\<lambda>u. rest)"

definition git_step :: "env \<Rightarrow> request \<Rightarrow> proc \<Rightarrow> proc" where
  "git_step e rq rest =
     try_step (\<lambda>st. if \<not> isGitRepo st (r_targetDir rq)
                     then and_then (gitInit e (r_targetDir rq))
                            (\<lambda>out. gitRenameBranch e (r_targetDir rq) ''main'') st
                     else gitRenameBranch e (r_targetDir rq) ''main'' st)
       (failure_text ''Failed to initialize git: '') (\<lambda>out. rest)"

definition commit_step :: "env \<Rightarrow> request \<Rightarrow> proc \<Rightarrow> proc" where
  "commit_step e rq rest =
     try_step (and_then (gitAddAll e (r_targetDir rq))
                 (\<lambda>out. gitCommit e (r_targetDir rq) ''Initial commit''))
       (failure_text ''Failed to create commit: '') (\<lambda>out. rest)"

definition create_repo_step :: "env \<Rightarrow> request \<Rightarrow> (string \<Rightarrow> proc) \<Rightarrow> proc" where
  "create_repo_step e rq rest =
     try_step (createRepoOnly e (r_projectName rq) (r_isPublic rq) (r_org rq))
       (failure_text ''Failed to create GitHub repo: '') rest"

definition remote_step :: "env \<Rightarrow> request \<Rightarrow> string \<Rightarrow> proc \<Rightarrow> proc" where
  "remote_step e rq repoUrl rest =
     try_step (gitAddRemote e (r_targetDir rq) repoUrl)
       (failure_text ''Failed to add remote: '') (\<lambda>out. rest)"

definition push_with_identity_step :: "env \<Rightarrow> request \<Rightarrow> proc \<Rightarrow> proc" where
  "push_with_identity_step e rq rest =
     bare_call (getGitHubSSHKeys e) (\<lambda>sshKeys.
     bare_call (select_identity e sshKeys) (\<lambda>selectedIdentityFile.
     try_step (gitPush e (r_targetDir rq) ''main'') (failure_text ''Failed to push: '')
       (\<lambda>out. rest)))"

text \<open>The success message (lines 457 to 472): \<^verbatim>\<open>org || getGhUsername()\<close>.\<close>

definition report_success :: "env \<Rightarrow> request \<Rightarrow> proc" where
  "report_success e rq =
     (case r_org rq of
        Some owner \<Rightarrow> (\<lambda>st. (st, Completed))
      | None \<Rightarrow> bare_call (getGhUsername e) (\<lambda>owner st. (st, Completed)))"

definition init_steps :: "env \<Rightarrow> request \<Rightarrow> proc" where
  "init_steps e rq =
     create_dir_step e rq
      (readme_step e rq
        (git_step e rq
          (commit_step e rq
            (create_repo_step e rq (\<lambda>repoUrl.
               remote_step e rq repoUrl
                 (push_with_identity_step e rq
                   (report_success e rq)))))))"

text \<open>The safety checks of \<^verbatim>\<open>--here\<close> (lines 329 to 350).\<close>

definition safety_checks :: "request \<Rightarrow> proc \<Rightarrow> proc" where
  "safety_checks rq rest st =
     (if r_useCurrentDir rq then
        (if isGitRepo st (r_targetDir rq) \<and> \<not> r_force rq then
           (emit (ConsoleError ''Use --force to proceed anyway (will rename branch to main).'')
              (emit (ConsoleError (CHR 0x0A # ''Error: Current directory is already a git repository.'')) st),
            Exit 1)
         else if existsSync st (path_join (r_targetDir rq) ''README.md'') \<and> \<not> r_force rq then
           (emit (ConsoleError ''Use --force to proceed anyway (will overwrite README.md).'')
              (emit (ConsoleError (CHR 0x0A # ''Error: README.md already exists.'')) st),
            Exit 1)
         else rest st)
      else rest st)"

text \<open>The preflight checks (lines 297 to 326).\<close>

definition preflight :: "env \<Rightarrow> request \<Rightarrow> proc \<Rightarrow> proc" where
  "preflight e rq rest st =
     (case isGhInstalled e st of
        (st1, False) \<Rightarrow> (emit (SpinnerFail ''GitHub CLI (gh) is not installed'') st1, Exit 1)
      | (st1, True) \<Rightarrow>
     (case isGhAuthenticated e st1 of
        (st2, False) \<Rightarrow> (emit (SpinnerFail ''GitHub CLI is not authenticated'') st2, Exit 1)
      | (st2, True) \<Rightarrow>
     (case repoExists e (r_projectName rq) (r_org rq) st2 of
        (st3, True) \<Rightarrow>
          (emit (SpinnerFail (''Repository \"'' @ repo_full_name (r_org rq) (r_projectName rq)
                    @ ''\" already exists on GitHub'')) st3, Exit 1)
      | (st3, False) \<Rightarrow> rest st3)))"

text \<open>\<^verbatim>\<open>initCommand(projectName, options)\<close> (lines 245 to 473).\<close>

definition init_request :: "env \<Rightarrow> init_options \<Rightarrow> jsobject \<Rightarrow> string \<Rightarrow> string option \<Rightarrow> request" where
  "init_request e options config validatedName org =
     \<lparr> r_projectName = validatedName,
       r_isPublic = resolve_isPublic options config,
       r_org = org,
       r_targetDir = (if opt_here options then cwd e else path_join (cwd e) validatedName),
       r_useCurrentDir = opt_here options,
       r_force = opt_force options \<rparr>"

definition initCommand :: "env \<Rightarrow> string \<Rightarrow> init_options \<Rightarrow> proc" where
  "initCommand e projectName options =
     bare_call (loadConfig e) (\<lambda>config st.
       case validateProjectName projectName of
         Inl msg \<Rightarrow> (emit (ConsoleError (CHR 0x0A # ''Error: '' @ msg)) st, Exit 1)
       | Inr validatedName \<Rightarrow>
           (case check_org (resolve_org options config) of
              Inl msg \<Rightarrow>
                (emit (ConsoleError (CHR 0x0A # ''Error: Invalid organization name - '' @ msg)) st, Exit 1)
            | Inr org \<Rightarrow>
                let rq = init_request e options config validatedName org
                in preflight e rq (safety_checks rq (init_steps e rq)) st))"

subsection \<open>Notions of the specification\<close>

text \<open>An error report changes nothing but the console.\<close>

fun is_report :: "event \<Rightarrow> bool" where
  "is_report (ConsoleError msg) = True"
| "is_report (ConsoleWarn msg) = True"
| "is_report (SpinnerFail msg) = True"
| "is_report ev = False"

text \<open>The warning of \<^verbatim>\<open>loadConfig\<close> is the only report that is no error.\<close>

fun is_warning :: "event \<Rightarrow> bool" where
  "is_warning (ConsoleWarn msg) = True"
| "is_warning ev = False"

text \<open>
  The events of a run that has changed nothing: error reports and the three commands of
  the preflight checks, which only query the hosting provider's tool.
\<close>

fun harmless :: "event \<Rightarrow> bool" where
  "harmless (Exec command dir) =
     (dir = None \<and> (command = ''which gh'' \<or> command = ''gh auth status''
                     \<or> js_startsWith command ''gh repo view ''))"
| "harmless (Mkdir p) = False"
| "harmless (WriteFile p content) = False"
| "harmless ev = True"

text \<open>
  For the proofs about the loop: the array \<open>hosts\<close> once the current block is flushed,
  and the loop's object for a block of the specification.
\<close>

definition flush :: "host_block list \<times> host_block option \<Rightarrow> host_block list" where
  "flush acc = (case snd acc of
                  Some cur \<Rightarrow> if h_isGitHub cur then fst acc @ [cur] else fst acc
                | None \<Rightarrow> fst acc)"

definition block_host :: "string \<Rightarrow> string \<times> string list \<Rightarrow> host_block" where
  "block_host home b = \<lparr> h_host = fst b, h_name = fst b,
                         h_identityFile = block_identity home (snd b),
                         h_isGitHub = block_related b \<rparr>"

subsection \<open>The workflow as the specification states it\<close>

text \<open>
  The calls of steps 1 to 7 of a run that creates its directory, in the order of the
  specification: create the directory, write the README, initialize version control (only
  where there is none) and rename the branch, stage and commit, create the remote
  repository (after the lookup of the user's name when no organization is given), attach
  the remote, push. The result of a subprocess depends on its command line only, so the
  user's name is known beforehand.
\<close>

definition gh_username :: "env \<Rightarrow> string" where
  "gh_username e =
     (case execSync e ''gh api user --jq .login'' None of Inr out \<Rightarrow> js_trim out | Inl msg \<Rightarrow> [])"

definition repo_owner :: "env \<Rightarrow> request \<Rightarrow> string" where
  "repo_owner e rq = (case r_org rq of Some owner \<Rightarrow> owner | None \<Rightarrow> gh_username e)"

definition username_lookup :: "request \<Rightarrow> event list" where
  "username_lookup rq =
     (case r_org rq of Some owner \<Rightarrow> [] | None \<Rightarrow> [Exec ''gh api user --jq .login'' None])"

definition planned_calls :: "env \<Rightarrow> state \<Rightarrow> request \<Rightarrow> event list" where
  "planned_calls e st rq =
     (let dir = r_targetDir rq;
          fullName = repo_owner e rq @ ''/'' @ r_projectName rq
      in [Mkdir dir,
          WriteFile (path_join dir ''README.md'') (''# '' @ r_projectName rq @ [CHR 0x0A])]
         @ (if existsSync st (path_join dir ''.git'') then [] else [Exec ''git init'' (Some dir)])
         @ [Exec ''git branch -M main'' (Some dir),
            Exec ''git add -A'' (Some dir),
            Exec ''git commit -m \"Initial commit\"'' (Some dir)]
         @ username_lookup rq
         @ [Exec (''gh repo create '' @ fullName @ '' '' @ visibility_flag (r_isPublic rq)) None,
            Exec (''git remote add origin git@github.com:'' @ fullName @ ''.git'') (Some dir),
            Exec ''git push -u origin main'' (Some dir)])"

definition preflight_calls :: "request \<Rightarrow> event list" where
  "preflight_calls rq =
     [Exec ''which gh'' None, Exec ''gh auth status'' None,
      Exec (''gh repo view '' @ repo_full_name (r_org rq) (r_projectName rq)) None]"

text \<open>Whether a call fails in an environment, and what a call that succeeds leaves behind.\<close>

fun call_fails :: "env \<Rightarrow> event \<Rightarrow> bool" where
  "call_fails e (Mkdir p) = (mkdir_error e p \<noteq> None)"
| "call_fails e (WriteFile p content) = (write_error e p \<noteq> None)"
| "call_fails e (Exec command dir) = isl (execSync e command dir)"
| "call_fails e ev = False"

fun apply_call :: "(string \<rightharpoonup> node) \<Rightarrow> event \<Rightarrow> (string \<rightharpoonup> node)" where
  "apply_call f (Mkdir p) = f(p \<mapsto> Dir)"
| "apply_call f (WriteFile p content) = f(p \<mapsto> File content)"
| "apply_call f ev = f"

text \<open>The choice of the identity between steps 6 and 7, which reads the file system only.\<close>

definition identity_selection :: "env \<Rightarrow> (string \<rightharpoonup> node) \<Rightarrow> string + string option" where
  "identity_selection e f =
     snd (and_then (getGitHubSSHKeys e) (select_identity e) \<lparr> fs = f, events = [] \<rparr>)"

text \<open>
  The linear state machine of the specification: a step is a list of calls with the text of
  its failure report; the calls run in order, the first call that fails ends the run with
  the report and exit status 1, and nothing is undone.
\<close>

fun perform :: "env \<Rightarrow> event \<Rightarrow> unit io" where
  "perform e (Mkdir p) = mkdirSync e p"
| "perform e (WriteFile p content) = writeFileSync e p content"
| "perform e (Exec command dir) = and_then (exec e command dir) (\<lambda>out st. (st, Inr ()))"
| "perform e ev = (\<lambda>st. (emit ev st, Inr ()))"

fun run_calls :: "env \<Rightarrow> event list \<Rightarrow> unit io" where
  "run_calls e [] = (\<lambda>st. (st, Inr ()))"
| "run_calls e (c # cs) = and_then (perform e c) (\<lambda>u. run_calls e cs)"

fun run_steps :: "env \<Rightarrow> (event list \<times> (string \<Rightarrow> string)) list \<Rightarrow> proc \<Rightarrow> proc" where
  "run_steps e [] finish = finish"
| "run_steps e (step # steps) finish =
     try_step (run_calls e (fst step)) (snd step) (\<lambda>u. run_steps e steps finish)"

text \<open>The state after calls that all succeeded.\<close>

definition after :: "state \<Rightarrow> event list \<Rightarrow> state" where
  "after st cs = st\<lparr> fs := foldl apply_call (fs st) cs, events := events st @ cs \<rparr>"

text \<open>Steps 1 to 6 of the workflow, and step 7, as steps of the machine.\<close>

definition workflow_steps :: "env \<Rightarrow> state \<Rightarrow> request \<Rightarrow> (event list \<times> (string \<Rightarrow> string)) list" where
  "workflow_steps e st rq =
     (let dir = r_targetDir rq;
          fullName = repo_owner e rq @ ''/'' @ r_projectName rq
      in [([Mkdir dir], (failure_text ''Failed to create directory: '')),
          ([WriteFile (path_join dir ''README.md'') (''# '' @ r_projectName rq @ [CHR 0x0A])],
           (failure_text ''Failed to create README.md: '')),
          ((if existsSync st (path_join dir ''.git'') then [] else [Exec ''git init'' (Some dir)])
           @ [Exec ''git branch -M main'' (Some dir)],
           (failure_text ''Failed to initialize git: '')),
          ([Exec ''git add -A'' (Some dir), Exec ''git commit -m \"Initial commit\"'' (Some dir)],
           (failure_text ''Failed to create commit: '')),
          (username_lookup rq
           @ [Exec (''gh repo create '' @ fullName @ '' '' @ visibility_flag (r_isPublic rq)) None],
           (failure_text ''Failed to create GitHub repo: '')),
          ([Exec (''git remote add origin git@github.com:'' @ fullName @ ''.git'') (Some dir)],
           (failure_text ''Failed to add remote: ''))])"

definition push_step :: "request \<Rightarrow> event list \<times> (string \<Rightarrow> string)" where
  "push_step rq =
     ([Exec ''git push -u origin main'' (Some (r_targetDir rq))], (failure_text ''Failed to push: ''))"

text \<open>
  Of a list of calls made in order until one fails: the calls that complete, and the calls
  that are made (the completed ones and the one that fails).
\<close>

definition completed :: "env \<Rightarrow> event list \<Rightarrow> event list" where
  "completed e cs = takeWhile (\<lambda>c. \<not> call_fails e c) cs"

definition attempted :: "env \<Rightarrow> event list \<Rightarrow> event list" where
  "attempted e cs = take (Suc (length (completed e cs))) cs"

definition all_ok :: "env \<Rightarrow> event list \<Rightarrow> bool" where
  "all_ok e cs = list_all (\<lambda>c. \<not> call_fails e c) cs"

text \<open>The preflight checks pass: the tool is installed and authenticated, the repository is new.\<close>

definition preflight_ok :: "env \<Rightarrow> string option \<Rightarrow> string \<Rightarrow> bool" where
  "preflight_ok e org name =
     (\<not> isl (execSync e ''which gh'' None)
      \<and> \<not> isl (execSync e ''gh auth status'' None)
      \<and> isl (execSync e (''gh repo view '' @ repo_full_name org name) None))"

subsection \<open>Sample environments for the examples\<close>

text \<open>
  A machine where \<^verbatim>\<open>gh\<close> is installed and authenticated as \<open>alice\<close>, no repository
  exists yet, every other command succeeds, and the JSON runtime is given on the one text
  the examples store.
\<close>

definition sample_prefs :: jsobject where
  "sample_prefs = [(''defaultVisibility'', Str ''public'')]"

definition sample_prefs_text :: string where
  "sample_prefs_text = ''{'' @ [CHR 0x0A] @ ''  \"defaultVisibility\": \"public\"'' @ [CHR 0x0A] @ ''}''"

definition sample_exec :: "string \<Rightarrow> string option \<Rightarrow> string + string" where
  "sample_exec command dir =
     (if js_startsWith command ''gh repo view '' then Inl ''Could not resolve to a Repository''
      else if command = ''gh api user --jq .login'' then Inr (''alice'' @ [CHR 0x0A])
      else Inr [])"

definition sample_parse :: "string \<Rightarrow> jsval option" where
  "sample_parse s = (if s = sample_prefs_text then Some (Obj sample_prefs) else None)"

definition sample_stringify :: "jsval \<Rightarrow> string" where
  "sample_stringify v = (if v = Obj sample_prefs then sample_prefs_text else ''null'')"

definition no_error :: "string \<Rightarrow> string option" where
  "no_error p = None"

definition sample_env :: env where
  "sample_env = \<lparr> cwd = ''/work'', homedir = ''/home/u'', execSync = sample_exec,
                    mkdir_error = no_error, write_error = no_error, read_error = no_error,
                    JSON_parse = sample_parse, JSON_stringify = sample_stringify,
                    pick = Some 0 \<rparr>"

text \<open>
  Two SSH configurations: the one of the specification's example, and one whose identity
  path has a tilde that is not leading.
\<close>

definition sample_ssh_config :: string where
  "sample_ssh_config =
     ''Host github.com-work'' @ [CHR 0x0A] @
     ''  IdentityFile ~/.ssh/work'' @ [CHR 0x0A] @
     [CHR 0x0A] @
     ''Host example.com'' @ [CHR 0x0A] @
     ''  IdentityFile ~/.ssh/other'' @ [CHR 0x0A]"

definition tilde_ssh_config :: string where
  "tilde_ssh_config =
     ''Host github.com'' @ [CHR 0x0A] @
     ''  IdentityFile /keys/work~old'' @ [CHR 0x0A]"

text \<open>
  File systems: an empty one, one with a corrupt preference file, one with the SSH
  configuration of the example, one where the path of the SSH configuration is a directory,
  one where the working directory is a repository.
\<close>

definition empty_state :: state where
  "empty_state = \<lparr> fs = Map.empty, events = [] \<rparr>"

definition corrupt_state :: state where
  "corrupt_state = \<lparr> fs = [''/home/u/.repokitrc'' \<mapsto> File ''{not json''], events = [] \<rparr>"

definition ssh_state :: state where
  "ssh_state = \<lparr> fs = [''/home/u/.ssh/config'' \<mapsto> File sample_ssh_config], events = [] \<rparr>"


definition repo_state :: state where
  "repo_state = \<lparr> fs = [''/work/.git'' \<mapsto> Dir], events = [] \<rparr>"

text \<open>Options of the two commands.\<close>

definition no_flags :: init_options where
  "no_flags = \<lparr> opt_public = False, opt_private = False, opt_here = False, opt_force = False,
                 opt_org = None \<rparr>"


definition here_flags :: init_options where
  "here_flags = \<lparr> opt_public = False, opt_private = False, opt_here = True, opt_force = False,
                   opt_org = Some ''acme'' \<rparr>"

definition show_staging :: config_options where
  "show_staging = \<lparr> c_org = Some ''acme'', c_visibility = Some ''staging'', c_show = True \<rparr>"

definition set_staging :: config_options where
  "set_staging = \<lparr> c_org = Some ''acme'', c_visibility = Some ''staging'', c_show = False \<rparr>"

text \<open>An environment like \<^const>\<open>sample_env\<close> where the commit fails.\<close>

definition commit_fails_exec :: "string \<Rightarrow> string option \<Rightarrow> string + string" where
  "commit_fails_exec command dir =
     (if command = ''git commit -m \"Initial commit\"'' then Inl ''nothing to commit''
      else sample_exec command dir)"

definition commit_fails_env :: env where
  "commit_fails_env = sample_env\<lparr> execSync := commit_fails_exec \<rparr>"

text \<open>The request of \<^verbatim>\<open>repokit init demo\<close> with the default preferences.\<close>

definition sample_request :: "env \<Rightarrow> request" where
  "sample_request e = init_request e no_flags DEFAULT_CONFIG ''demo'' None"

section \<open>Theorems\<close>

subsection \<open>The name validator\<close>

lemma js_trim_Nil: "js_trim [] = []"
  by (simp add: js_trim_def)

lemma first_violated_None: "first_violated t = None \<longleftrightarrow> name_accepted t"
  by (simp add: first_violated_def name_accepted_def)

text \<open>
  C3. The validator accepts exactly the strings whose trimmed form is non-empty, of at most
  100 characters, not starting with a period or a hyphen, made of the characters
  \<^verbatim>\<open>[A-Za-z0-9._-]\<close> only and without \<^verbatim>\<open>..\<close>; it then returns the trimmed string.
  Otherwise it fails with a message of the first rule that the trimmed string violates, in
  the order of \<^const>\<open>first_violated\<close>; \<^const>\<open>message_rule\<close> gives each message one rule,
  so the messages of two rules differ. (The first rule has two messages: one for the empty
  string, one for a string of white space.)
\<close>

theorem validateProjectName_rules:
  "((\<exists>r. validateProjectName s = Inr r) \<longleftrightarrow> name_accepted (js_trim s))
   \<and> (name_accepted (js_trim s) \<longrightarrow> validateProjectName s = Inr (js_trim s))
   \<and> (\<forall>rule. first_violated (js_trim s) = Some rule \<longrightarrow>
         (\<exists>m. validateProjectName s = Inl m \<and> message_rule m = Some rule))"
  by (auto simp add: validateProjectName_def first_violated_def name_accepted_def Let_def
      js_trim_Nil MAX_PROJECT_NAME_LENGTH_def VALID_NAME_PATTERN_test_def message_rule_def
      split: if_splits)

theorem validateProjectName_rules_witness:
  "name_accepted (js_trim ''  my-repo_1.0 '')
   \<and> validateProjectName ''  my-repo_1.0 '' = Inr ''my-repo_1.0''
   \<and> first_violated (js_trim ''a..b'') = Some NoDotDot
   \<and> (\<exists>m. validateProjectName ''a..b'' = Inl m \<and> message_rule m = Some NoDotDot)"
proof -
  have t: "js_trim ''  my-repo_1.0 '' = ''my-repo_1.0''"
    by (simp add: js_trim_def js_space_def)
  have a: "name_accepted ''my-repo_1.0''"
    by (simp add: name_accepted_def js_startsWith_def name_char_def)
  have v: "first_violated (js_trim ''a..b'') = Some NoDotDot"
    by (simp add: first_violated_def js_trim_def js_space_def js_startsWith_def name_char_def)
  show ?thesis
    using validateProjectName_rules [of "''  my-repo_1.0 ''"]
      validateProjectName_rules [of "''a..b''"] t a v
    by simp
qed

subsection \<open>The preference store\<close>

lemma map_of_prop_set: "map_of (prop_set k v obj) = (map_of obj)(k \<mapsto> v)"
  by (induction obj) (auto simp: fun_eq_iff)

lemma prop_get_prop_set: "prop_get (prop_set k v obj) k' = (if k' = k then v else prop_get obj k')"
  by (simp add: prop_get_def map_of_prop_set)

lemma prop_get_assign:
  "distinct (map fst kvs) \<Longrightarrow>
   prop_get (foldl (\<lambda>obj (k, w). prop_set k w obj) a kvs) k
     = (case map_of kvs k of Some v \<Rightarrow> v | None \<Rightarrow> prop_get a k)"
proof (induction kvs arbitrary: a)
  case Nil
  then show ?case by simp
next
  case (Cons kv kvs)
  obtain k' v' where kv: "kv = (k', v')" by (cases kv)
  from Cons.prems kv have d: "distinct (map fst kvs)" and n: "k' \<notin> fst ` set kvs" by auto
  from n have "map_of kvs k' = None" by (simp add: map_of_eq_None_iff)
  then show ?case using Cons.IH [OF d] kv
    by (auto simp: prop_get_prop_set split: option.splits)
qed

text \<open>
  C6. \<^const>\<open>loadConfig\<close> never throws: it always returns a configuration. When the file
  is absent it returns the built-in defaults, leaving the state as it is; when the file is
  there and its text does not parse, it prints one warning and returns the same defaults.
  The defaults are \<^verbatim>\<open>defaultOrg = null\<close> and \<^verbatim>\<open>defaultVisibility = 'private'\<close>.
\<close>

theorem loadConfig_never_fails:
  "(\<exists>st1 config. loadConfig e st = (st1, Inr config))
   \<and> (\<not> existsSync st (CONFIG_FILE e) \<longrightarrow> loadConfig e st = (st, Inr DEFAULT_CONFIG))
   \<and> (\<forall>content. fs st (CONFIG_FILE e) = Some (File content) \<and> read_error e (CONFIG_FILE e) = None
          \<and> JSON_parse e content = None \<longrightarrow>
        loadConfig e st =
          (emit (ConsoleWarn (''Warning: Could not parse '' @ CONFIG_FILE e @ '', using defaults'')) st,
           Inr DEFAULT_CONFIG))
   \<and> prop_get DEFAULT_CONFIG ''defaultOrg'' = Null
   \<and> prop_get DEFAULT_CONFIG ''defaultVisibility'' = Str ''private''"
  by (auto simp: loadConfig_def and_then_def readFileSync_def existsSync_def DEFAULT_CONFIG_def
      prop_get_def split: option.splits node.splits prod.splits sum.splits)

lemma sample_config_file: "CONFIG_FILE sample_env = ''/home/u/.repokitrc''"
  by (simp add: CONFIG_FILE_def sample_env_def path_join_def)

theorem loadConfig_never_fails_witness:
  "loadConfig sample_env empty_state = (empty_state, Inr DEFAULT_CONFIG)
   \<and> loadConfig sample_env corrupt_state =
       (emit (ConsoleWarn ''Warning: Could not parse /home/u/.repokitrc, using defaults'') corrupt_state,
        Inr DEFAULT_CONFIG)"
proof -
  have a: "\<not> existsSync empty_state (CONFIG_FILE sample_env)"
    by (simp add: existsSync_def empty_state_def)
  have b: "fs corrupt_state (CONFIG_FILE sample_env) = Some (File ''{not json'')"
    by (simp add: sample_config_file corrupt_state_def)
  have c: "read_error sample_env (CONFIG_FILE sample_env) = None"
    by (simp add: sample_env_def no_error_def)
  have d: "JSON_parse sample_env ''{not json'' = None"
    by (simp add: sample_env_def sample_parse_def sample_prefs_text_def)
  show ?thesis
    using loadConfig_never_fails [of sample_env empty_state]
      loadConfig_never_fails [of sample_env corrupt_state] a b c d
    by (simp add: sample_config_file)
qed

text \<open>
  C5. After a successful \<^const>\<open>saveConfig\<close> of an object \<open>p\<close> (its keys distinct, as
  those of every object), with the file readable and a JSON runtime that parses the text of
  \<open>p\<close> back to \<open>p\<close>, \<^const>\<open>loadConfig\<close> returns the defaults merged with \<open>p\<close>:
  each field of \<open>p\<close> overrides the default, each absent field takes the default.
\<close>

theorem save_then_load_merges:
  assumes "saveConfig e p st = (st1, Inr ())"
    and "read_error e (CONFIG_FILE e) = None"
    and "JSON_parse e (JSON_stringify e (Obj p)) = Some (Obj p)"
    and "distinct (map fst p)"
  shows "loadConfig e st1 = (st1, Inr (spread DEFAULT_CONFIG (Obj p)))
         \<and> (\<forall>k. prop_get (spread DEFAULT_CONFIG (Obj p)) k = merge_fields DEFAULT_CONFIG p k)"
proof -
  from assms(1) have f: "fs st1 (CONFIG_FILE e) = Some (File (JSON_stringify e (Obj p)))"
    by (auto simp: saveConfig_def writeFileSync_def emit_def Let_def split: option.splits)
  have l: "loadConfig e st1 = (st1, Inr (spread DEFAULT_CONFIG (Obj p)))"
    using f assms(2,3)
    by (simp add: loadConfig_def existsSync_def and_then_def readFileSync_def)
  have m: "\<forall>k. prop_get (spread DEFAULT_CONFIG (Obj p)) k = merge_fields DEFAULT_CONFIG p k"
    using prop_get_assign [OF assms(4)] by (simp add: spread_def merge_fields_def)
  from l m show ?thesis by simp
qed

theorem save_then_load_merges_witness:
  "saveConfig sample_env sample_prefs empty_state =
     (fst (saveConfig sample_env sample_prefs empty_state), Inr ())
   \<and> loadConfig sample_env (fst (saveConfig sample_env sample_prefs empty_state)) =
       (fst (saveConfig sample_env sample_prefs empty_state),
        Inr [(''defaultOrg'', Null), (''defaultVisibility'', Str ''public'')])"
proof -
  have s: "saveConfig sample_env sample_prefs empty_state =
             (fst (saveConfig sample_env sample_prefs empty_state), Inr ())"
    by (simp add: saveConfig_def writeFileSync_def Let_def sample_env_def no_error_def)
  have r: "read_error sample_env (CONFIG_FILE sample_env) = None"
    by (simp add: sample_env_def no_error_def)
  have j: "JSON_parse sample_env (JSON_stringify sample_env (Obj sample_prefs)) = Some (Obj sample_prefs)"
    by (simp add: sample_env_def sample_parse_def sample_stringify_def)
  have d: "distinct (map fst sample_prefs)"
    by (simp add: sample_prefs_def)
  have v: "spread DEFAULT_CONFIG (Obj sample_prefs) = [(''defaultOrg'', Null), (''defaultVisibility'', Str ''public'')]"
    by (simp add: spread_def DEFAULT_CONFIG_def sample_prefs_def)
  show ?thesis
    using save_then_load_merges [OF s r j d] s v by simp
qed

subsection \<open>The visibility of a new repository\<close>



subsection \<open>The preference command\<close>

lemma loadConfig_cases:
  "(\<exists>config. loadConfig e st = (st, Inr config))
   \<or> loadConfig e st =
       (emit (ConsoleWarn (''Warning: Could not parse '' @ CONFIG_FILE e @ '', using defaults'')) st,
        Inr DEFAULT_CONFIG)"
  by (simp add: loadConfig_def and_then_def readFileSync_def
      split: option.splits node.splits)

lemma loadConfig_effect:
  "\<exists>config warns. loadConfig e st = (st\<lparr> events := events st @ warns \<rparr>, Inr config)
     \<and> list_all is_report warns"
proof -
  consider (quiet) config where "loadConfig e st = (st, Inr config)"
    | (warned) "loadConfig e st =
       (emit (ConsoleWarn (''Warning: Could not parse '' @ CONFIG_FILE e @ '', using defaults'')) st,
        Inr DEFAULT_CONFIG)"
    using loadConfig_cases by blast
  then show ?thesis
  proof cases
    case quiet
    then have "loadConfig e st = (st\<lparr> events := events st @ [] \<rparr>, Inr config)
               \<and> list_all is_report []"
      by simp
    then show ?thesis by blast
  next
    case warned
    then have "loadConfig e st =
        (st\<lparr> events := events st @
           [ConsoleWarn (''Warning: Could not parse '' @ CONFIG_FILE e @ '', using defaults'')] \<rparr>,
         Inr DEFAULT_CONFIG)
        \<and> list_all is_report
           [ConsoleWarn (''Warning: Could not parse '' @ CONFIG_FILE e @ '', using defaults'')]"
      by (simp add: emit_def)
    then show ?thesis by blast
  qed
qed

lemma loadConfig_warnings:
  "\<exists>config warns. loadConfig e st = (st\<lparr> events := events st @ warns \<rparr>, Inr config)
     \<and> list_all is_warning warns"
proof -
  consider (quiet) config where "loadConfig e st = (st, Inr config)"
    | (warned) "loadConfig e st =
       (emit (ConsoleWarn (''Warning: Could not parse '' @ CONFIG_FILE e @ '', using defaults'')) st,
        Inr DEFAULT_CONFIG)"
    using loadConfig_cases by blast
  then show ?thesis
  proof cases
    case quiet
    then have "loadConfig e st = (st\<lparr> events := events st @ [] \<rparr>, Inr config)
               \<and> list_all is_warning []"
      by simp
    then show ?thesis by blast
  next
    case warned
    then have "loadConfig e st =
        (st\<lparr> events := events st @
           [ConsoleWarn (''Warning: Could not parse '' @ CONFIG_FILE e @ '', using defaults'')] \<rparr>,
         Inr DEFAULT_CONFIG)
        \<and> list_all is_warning
           [ConsoleWarn (''Warning: Could not parse '' @ CONFIG_FILE e @ '', using defaults'')]"
      by (simp add: emit_def)
    then show ?thesis by blast
  qed
qed

text \<open>
  C9, as stated, fails: with \<^verbatim>\<open>--show\<close> the command returns before it looks at the
  visibility, so \<^verbatim>\<open>config --show --org acme --visibility staging\<close> reports no error
  and does not exit with status 1.
\<close>

theorem config_invalid_visibility_counterexample:
  "c_visibility show_staging = Some ''staging''
   \<and> ''staging'' \<noteq> ''public'' \<and> ''staging'' \<noteq> ''private''
   \<and> configCommand sample_env show_staging empty_state = (empty_state, Completed)"
  by (simp add: configCommand_def show_staging_def loadConfig_def existsSync_def empty_state_def)

text \<open>
  C9, amended. Without \<^verbatim>\<open>--show\<close>, a visibility that is not empty and is neither
  \<^verbatim>\<open>public\<close> nor \<^verbatim>\<open>private\<close> makes the command report the error and exit with
  status 1, whatever the \<^verbatim>\<open>--org\<close> option: the events of the run are the warning of
  \<^const>\<open>loadConfig\<close>, if any, and the error; the file system is as before, so the
  preference file is not written. With \<^verbatim>\<open>--show\<close> the command returns: it reports no
  error, does not exit with status 1 and does not write.
\<close>

theorem config_invalid_visibility_rejected:
  "(\<not> c_show options \<and> c_visibility options = Some v \<and> v \<noteq> [] \<and> v \<noteq> ''public'' \<and> v \<noteq> ''private''
      \<longrightarrow> snd (configCommand e options st) = Exit 1
          \<and> fs (fst (configCommand e options st)) = fs st
          \<and> (\<exists>warns. events (fst (configCommand e options st))
                 = events st @ warns @ [ConsoleError ''Visibility must be \"public\" or \"private\"'']
               \<and> list_all is_warning warns))
   \<and> (c_show options
      \<longrightarrow> snd (configCommand e options st) = Completed
          \<and> fs (fst (configCommand e options st)) = fs st
          \<and> (\<exists>warns. events (fst (configCommand e options st)) = events st @ warns
               \<and> list_all is_warning warns))"
proof -
  obtain config warns where l: "loadConfig e st = (st\<lparr> events := events st @ warns \<rparr>, Inr config)"
    and w: "list_all is_warning warns"
    using loadConfig_warnings by blast
  show ?thesis
    using l w by (auto simp: configCommand_def given_def emit_def Let_def)
qed

theorem config_invalid_visibility_rejected_witness:
  "configCommand sample_env set_staging empty_state
     = (emit (ConsoleError ''Visibility must be \"public\" or \"private\"'') empty_state, Exit 1)
   \<and> fs (fst (configCommand sample_env set_staging empty_state)) = Map.empty
   \<and> configCommand sample_env show_staging empty_state = (empty_state, Completed)"
proof -
  have a: "\<not> c_show set_staging \<and> c_visibility set_staging = Some ''staging''"
    by (simp add: set_staging_def)
  have b: "c_show show_staging"
    by (simp add: show_staging_def)
  have c: "configCommand sample_env set_staging empty_state
     = (emit (ConsoleError ''Visibility must be \"public\" or \"private\"'') empty_state, Exit 1)"
    by (simp add: configCommand_def set_staging_def loadConfig_def existsSync_def empty_state_def
        given_def)
  have d: "configCommand sample_env show_staging empty_state = (empty_state, Completed)"
    by (simp add: configCommand_def show_staging_def loadConfig_def existsSync_def empty_state_def)
  show ?thesis
    using config_invalid_visibility_rejected [of set_staging "''staging''" sample_env empty_state]
      config_invalid_visibility_rejected [of show_staging "''staging''" sample_env empty_state] a b c d
    by (simp add: empty_state_def)
qed

subsection \<open>The SSH identity lister\<close>

lemma split_first_prefix: "split_first pat (pat @ rest) = Some ([], rest)"
proof (cases "pat @ rest")
  case Nil
  then show ?thesis by simp
next
  case (Cons a list)
  have "take (length pat) (a # list) = pat" and "drop (length pat) (a # list) = rest"
    unfolding Cons [symmetric] by simp_all
  then have "split_first pat (a # list) = Some ([], rest)"
    by simp
  then show ?thesis
    unfolding Cons .
qed

lemma js_replace_prefix_empty: "js_replace (pat @ rest) pat [] = rest"
  by (simp add: js_replace_def split_first_prefix)

lemma get_substitution_plain:
  "CHR ''$'' \<notin> set r \<Longrightarrow> get_substitution m pre post r = r"
  by (induction m pre post r rule: get_substitution.induct) auto

lemma friendly_name_cases:
  "friendly_name (''github.com-'' @ suffix) = suffix
   \<and> friendly_name ''github.com'' = ''default''
   \<and> (\<not> js_startsWith alias ''github.com-'' \<and> alias \<noteq> ''github.com'' \<longrightarrow> friendly_name alias = alias)"
proof -
  have "js_replace (''github.com-'' @ suffix) ''github.com-'' [] = suffix"
    by (rule js_replace_prefix_empty)
  then show ?thesis
    by (simp add: friendly_name_def js_startsWith_def)
qed

lemma absorb:
  "foldl (block_line home) c body =
     c\<lparr> h_identityFile := (case rev (identity_lines body) of [] \<Rightarrow> h_identityFile c
                             | path # _ \<Rightarrow> Some (js_replace path ''~'' home)),
        h_isGitHub := (h_isGitHub c \<or> list_ex (\<lambda>l. match_directive ''HostName'' l = Some ''github.com'') body) \<rparr>"
proof (induction body arbitrary: c)
  case Nil
  then show ?case by (simp add: identity_lines_def List.map_filter_simps)
next
  case (Cons l body)
  show ?case
    unfolding foldl_Cons Cons.IH
    by (auto simp: block_line_def identity_lines_def List.map_filter_simps split: option.splits list.splits)
qed


lemma ssh_line_other:
  "match_directive ''Host'' (js_trim l) = None \<Longrightarrow>
   ssh_line home (hosts, cur) l = (hosts, map_option (\<lambda>c. block_line home c (js_trim l)) cur)"
  by (simp add: ssh_line_def split: option.splits)

lemma ssh_line_host:
  "match_directive ''Host'' (js_trim l) = Some alias \<Longrightarrow>
   ssh_line home (hosts, cur) l =
     (flush (hosts, cur),
      Some \<lparr> h_host = alias, h_name = alias, h_identityFile = None,
             h_isGitHub = js_includes alias ''github.com'' \<rparr>)"
  by (simp add: ssh_line_def flush_def split: option.splits)

lemma flush_foldl:
  "flush (foldl (ssh_line home) (hosts, cur) ls) =
     (case cur of
        None \<Rightarrow> hosts
      | Some c \<Rightarrow>
          (let c' = foldl (block_line home) c
                      (takeWhile (\<lambda>x. match_directive ''Host'' x = None) (map js_trim ls))
           in if h_isGitHub c' then hosts @ [c'] else hosts))
     @ map (block_host home) (filter block_related (host_blocks (map js_trim ls)))"
proof (induction ls arbitrary: hosts cur)
  case Nil
  then show ?case by (simp add: flush_def split: option.splits)
next
  case (Cons l ls)
  show ?case
  proof (cases "match_directive ''Host'' (js_trim l)")
    case None
    then show ?thesis
      by (cases cur) (simp_all add: ssh_line_other Cons.IH Let_def)
  next
    case (Some a)
    let ?body = "takeWhile (\<lambda>x. match_directive ''Host'' x = None) (map js_trim ls)"
    let ?fresh = "\<lparr> h_host = a, h_name = a, h_identityFile = None,
                    h_isGitHub = js_includes a ''github.com'' \<rparr>"
    have fresh: "foldl (block_line home) ?fresh ?body = block_host home (a, ?body)"
      by (simp add: absorb block_host_def block_identity_def block_related_def split: list.splits)
    have head: "flush (hosts, cur) =
        (case cur of
           None \<Rightarrow> hosts
         | Some c \<Rightarrow>
             (let c' = foldl (block_line home) c
                         (takeWhile (\<lambda>x. match_directive ''Host'' x = None) (map js_trim (l # ls)))
              in if h_isGitHub c' then hosts @ [c'] else hosts))"
      using Some by (simp add: flush_def split: option.splits)
    have "flush (foldl (ssh_line home) (hosts, cur) (l # ls)) =
            flush (foldl (ssh_line home) (flush (hosts, cur), Some ?fresh) ls)"
      by (simp add: ssh_line_host [OF Some])
    also have "\<dots> = (if h_isGitHub (block_host home (a, ?body))
                       then flush (hosts, cur) @ [block_host home (a, ?body)]
                       else flush (hosts, cur))
                      @ map (block_host home) (filter block_related (host_blocks (map js_trim ls)))"
      by (simp add: Cons.IH fresh Let_def)
    also have "\<dots> = flush (hosts, cur)
                      @ map (block_host home)
                          (filter block_related (host_blocks (map js_trim (l # ls))))"
      using Some by (simp add: block_host_def)
    finally show ?thesis
      by (simp only: head)
  qed
qed

lemma ssh_entry_block_host: "ssh_entry (block_host home b) = block_entry home b"
  by (simp add: ssh_entry_def block_host_def block_entry_def)

lemma parse_ssh_config_blocks:
  "parse_ssh_config home content =
     map (block_entry home)
       (filter block_related (host_blocks (map js_trim (js_split CHR 0x0A content))))"
proof -
  have "parse_ssh_config home content =
          map ssh_entry (flush (foldl (ssh_line home) ([], None) (js_split CHR 0x0A content)))"
    by (simp add: parse_ssh_config_def flush_def Let_def)
  then show ?thesis
    by (simp add: flush_foldl ssh_entry_block_host comp_def)
qed

lemma tilde_leading:
  "CHR ''$'' \<notin> set home \<Longrightarrow> js_replace (CHR ''~'' # rest) ''~'' home = home @ rest"
  by (simp add: js_replace_def get_substitution_plain)

lemma sample_ssh_blocks:
  "host_blocks (map js_trim (js_split CHR 0x0A sample_ssh_config)) =
     [(''github.com-work'', [''IdentityFile ~/.ssh/work'', []]),
      (''example.com'', [''IdentityFile ~/.ssh/other'', []])]"
  by code_simp

lemma sample_ssh_related:
  "block_related (''github.com-work'', [''IdentityFile ~/.ssh/work'', []])"
  "\<not> block_related (''example.com'', [''IdentityFile ~/.ssh/other'', []])"
  by code_simp+

lemma sample_ssh_identity: "identity_lines [''IdentityFile ~/.ssh/work'', []] = [''~/.ssh/work'']"
  by code_simp

lemma sample_ssh_entries:
  assumes "CHR ''$'' \<notin> set home"
  shows "parse_ssh_config home sample_ssh_config =
           [\<lparr> k_name = ''work'', k_host = ''github.com-work'',
              k_identityFile = Some (home @ ''/.ssh/work'') \<rparr>]"
proof -
  have n: "friendly_name ''github.com-work'' = ''work''"
    using friendly_name_cases [of "''work''"] by simp
  have i: "block_identity home [''IdentityFile ~/.ssh/work'', []] = Some (home @ ''/.ssh/work'')"
    using tilde_leading [OF assms, of "''/.ssh/work''"]
    by (simp add: block_identity_def sample_ssh_identity)
  show ?thesis
    by (simp add: parse_ssh_config_blocks sample_ssh_blocks sample_ssh_related block_entry_def n i)
qed

text \<open>
  What holds of the lister. It returns one entry for each host block that is related to
  \<^verbatim>\<open>github.com\<close>, in the order of the file, and none for the other blocks. The name of
  an entry is the suffix of an alias \<^verbatim>\<open>github.com-<suffix>\<close>, \<^verbatim>\<open>default\<close> for the
  alias \<^verbatim>\<open>github.com\<close>, and the alias itself otherwise. For the configuration
  \<^const>\<open>sample_ssh_config\<close> and a home directory without a dollar sign, the result is the
  one entry \<open>work\<close> with the identity file \<^verbatim>\<open><home>/.ssh/work\<close>. The file is read
  when it exists; without it the result is empty.
\<close>

theorem ssh_lister_blocks:
  "parse_ssh_config home content =
     map (block_entry home)
       (filter block_related (host_blocks (map js_trim (js_split CHR 0x0A content))))
   \<and> friendly_name (''github.com-'' @ suffix) = suffix
   \<and> friendly_name ''github.com'' = ''default''
   \<and> (\<not> js_startsWith a ''github.com-'' \<and> a \<noteq> ''github.com'' \<longrightarrow> friendly_name a = a)
   \<and> (CHR ''$'' \<notin> set home \<longrightarrow>
        parse_ssh_config home sample_ssh_config =
          [\<lparr> k_name = ''work'', k_host = ''github.com-work'',
             k_identityFile = Some (home @ ''/.ssh/work'') \<rparr>])
   \<and> (\<not> existsSync st (SSH_CONFIG_PATH e) \<longrightarrow> getGitHubSSHKeys e st = (st, Inr []))
   \<and> (fs st (SSH_CONFIG_PATH e) = Some (File content) \<and> read_error e (SSH_CONFIG_PATH e) = None \<longrightarrow>
        getGitHubSSHKeys e st = (st, Inr (parse_ssh_config (homedir e) content)))"
proof -
  have k: "\<not> existsSync st (SSH_CONFIG_PATH e) \<longrightarrow> getGitHubSSHKeys e st = (st, Inr [])"
    by (simp add: getGitHubSSHKeys_def)
  have r: "fs st (SSH_CONFIG_PATH e) = Some (File content) \<and> read_error e (SSH_CONFIG_PATH e) = None \<longrightarrow>
        getGitHubSSHKeys e st = (st, Inr (parse_ssh_config (homedir e) content))"
    by (simp add: getGitHubSSHKeys_def existsSync_def and_then_def readFileSync_def)
  show ?thesis
    using parse_ssh_config_blocks [of home content] friendly_name_cases [of suffix a]
      sample_ssh_entries [of home] k r
    by blast
qed

theorem ssh_lister_blocks_witness:
  "getGitHubSSHKeys sample_env ssh_state =
     (ssh_state, Inr [\<lparr> k_name = ''work'', k_host = ''github.com-work'',
                        k_identityFile = Some ''/home/u/.ssh/work'' \<rparr>])
   \<and> getGitHubSSHKeys sample_env empty_state = (empty_state, Inr [])"
proof -
  have p: "SSH_CONFIG_PATH sample_env = ''/home/u/.ssh/config''"
    by (simp add: SSH_CONFIG_PATH_def sample_env_def path_join_def)
  have f: "fs ssh_state (SSH_CONFIG_PATH sample_env) = Some (File sample_ssh_config)"
    by (simp add: p ssh_state_def)
  have r: "read_error sample_env (SSH_CONFIG_PATH sample_env) = None"
    by (simp add: sample_env_def no_error_def)
  have h: "homedir sample_env = ''/home/u''"
    by (simp add: sample_env_def)
  have d: "CHR ''$'' \<notin> set ''/home/u''"
    by simp
  have a: "\<not> existsSync empty_state (SSH_CONFIG_PATH sample_env)"
    by (simp add: existsSync_def empty_state_def)
  show ?thesis
    using ssh_lister_blocks [of "''/home/u''" sample_ssh_config "[]" "[]" ssh_state sample_env]
      ssh_lister_blocks [of "''/home/u''" sample_ssh_config "[]" "[]" empty_state sample_env]
      f r h d a
    by simp
qed

text \<open>
  C7 fails on the code at its example. \<^verbatim>\<open>identityMatch[1].replace('~', homedir())\<close>
  gives the home directory as the replacement text of \<^verbatim>\<open>String.prototype.replace\<close>,
  which reads \<^verbatim>\<open>$&\<close> in it as the matched text: with the home directory
  \<^verbatim>\<open>/home/a$&b\<close> the identity file of the example's entry is \<^verbatim>\<open>/home/a~b/.ssh/work\<close>,
  not \<^verbatim>\<open><home>/.ssh/work\<close>. The block and the friendly name are as the claim says.
\<close>

theorem ssh_example_dollar_home:
  "parse_ssh_config ''/home/a$&b'' sample_ssh_config =
     [\<lparr> k_name = ''work'', k_host = ''github.com-work'',
        k_identityFile = Some ''/home/a~b/.ssh/work'' \<rparr>]"
  by code_simp

text \<open>
  C8 fails on the code. \<^verbatim>\<open>identityMatch[1].replace('~', homedir())\<close> replaces the first
  tilde wherever it stands: the path \<^verbatim>\<open>/keys/work~old\<close> of \<^const>\<open>tilde_ssh_config\<close>
  does not start with a tilde and is recorded as \<^verbatim>\<open>/keys/work/home/uold\<close>.
\<close>

theorem identity_tilde_inside_path:
  "parse_ssh_config ''/home/u'' tilde_ssh_config =
     [\<lparr> k_name = ''default'', k_host = ''github.com'',
        k_identityFile = Some ''/keys/work/home/uold'' \<rparr>]"
  by code_simp

subsection \<open>The provisioning workflow\<close>

lemma exec_effect:
  "exec e command dir st = (emit (Exec command dir) st, map_sum id js_trim (execSync e command dir))"
  by (simp add: exec_def Let_def split: sum.splits)

text \<open>
  C4. A run with \<^verbatim>\<open>--here\<close> and without \<^verbatim>\<open>--force\<close>, in a directory that has a
  \<^verbatim>\<open>.git\<close> entry or a \<^verbatim>\<open>README.md\<close>, exits with status 1; the file system is as
  before, and the run has made no call but the preflight queries: no directory is created
  and no file is written.
\<close>

theorem unsafe_reuse_aborts:
  assumes "opt_here options" and "\<not> opt_force options"
    and "existsSync st (path_join (cwd e) ''.git'') \<or> existsSync st (path_join (cwd e) ''README.md'')"
  shows "snd (initCommand e name options st) = Exit 1
         \<and> fs (fst (initCommand e name options st)) = fs st
         \<and> (\<exists>new. events (fst (initCommand e name options st)) = events st @ new
                \<and> list_all harmless new)"
proof -
  obtain config warns where l: "loadConfig e st = (st\<lparr> events := events st @ warns \<rparr>, Inr config)"
    and w: "list_all is_report warns"
    using loadConfig_effect by blast
  have h: "list_all harmless warns"
    using w by (induction warns) (auto elim: is_report.elims)
  show ?thesis
    using l h assms
    by (auto simp: initCommand_def bare_call_def preflight_def safety_checks_def
        isGhInstalled_def isGhAuthenticated_def repoExists_def succeeds_def exec_effect emit_def
        isGitRepo_def existsSync_def js_startsWith_def Let_def init_request_def
        split: sum.splits)
qed


theorem unsafe_reuse_aborts_witness:
  "snd (initCommand sample_env ''demo'' here_flags repo_state) = Exit 1
   \<and> fs (fst (initCommand sample_env ''demo'' here_flags repo_state)) = fs repo_state"
proof -
  have a: "opt_here here_flags" and b: "\<not> opt_force here_flags"
    by (simp_all add: here_flags_def)
  have c: "existsSync repo_state (path_join (cwd sample_env) ''.git'')
           \<or> existsSync repo_state (path_join (cwd sample_env) ''README.md'')"
    by (simp add: existsSync_def repo_state_def sample_env_def path_join_def)
  show ?thesis
    using unsafe_reuse_aborts [OF a b c, of "''demo''"] by simp
qed


text \<open>
  C2 fails on the code. \<^verbatim>\<open>initCommand\<close> calls \<^verbatim>\<open>gitPush(targetDir, 'main', selectedIdentityFile)\<close>,
  but \<^verbatim>\<open>gitPush(dir, branch = 'main')\<close> has no third parameter. With the one identity
  of \<^const>\<open>ssh_state\<close> selected, the run pushes with \<^verbatim>\<open>git push -u origin main\<close>, and
  all its calls are those of the run without any SSH configuration.
\<close>

theorem push_ignores_identity:
  "identity_selection sample_env (fs ssh_state) = Inr (Some ''/home/u/.ssh/work'')
   \<and> snd (initCommand sample_env ''demo'' no_flags ssh_state) = Completed
   \<and> events (fst (initCommand sample_env ''demo'' no_flags ssh_state)) =
       [Exec ''which gh'' None,
        Exec ''gh auth status'' None,
        Exec ''gh repo view demo'' None,
        Mkdir ''/work/demo'',
        WriteFile ''/work/demo/README.md'' (''# demo'' @ [CHR 0x0A]),
        Exec ''git init'' (Some ''/work/demo''),
        Exec ''git branch -M main'' (Some ''/work/demo''),
        Exec ''git add -A'' (Some ''/work/demo''),
        Exec ''git commit -m \"Initial commit\"'' (Some ''/work/demo''),
        Exec ''gh api user --jq .login'' None,
        Exec ''gh repo create alice/demo --private'' None,
        Exec ''git remote add origin git@github.com:alice/demo.git'' (Some ''/work/demo''),
        Exec ''git push -u origin main'' (Some ''/work/demo''),
        Exec ''gh api user --jq .login'' None]
   \<and> events (fst (initCommand sample_env ''demo'' no_flags empty_state)) =
       events (fst (initCommand sample_env ''demo'' no_flags ssh_state))"
  by code_simp

lemma identity_phase:
  "bare_call (getGitHubSSHKeys e) (\<lambda>keys. bare_call (select_identity e keys) (\<lambda>sel. R)) st =
     (case identity_selection e (fs st) of Inl msg \<Rightarrow> (st, Uncaught msg) | Inr v \<Rightarrow> R st)"
  by (simp add: bare_call_def identity_selection_def and_then_def getGitHubSSHKeys_def
      readFileSync_def existsSync_def select_identity_def
      split: option.splits node.splits list.splits)

lemma path_join_git:
  "path_join d ''.git'' \<noteq> d" "path_join d ''.git'' \<noteq> path_join d ''README.md''"
  by (simp_all add: path_join_def)

lemma plan_concat:
  "planned_calls e st rq = concat (map fst (workflow_steps e st rq)) @ fst (push_step rq)"
  by (simp add: planned_calls_def workflow_steps_def push_step_def Let_def)

lemma perform_spec:
  "fst (perform e c st) =
     st\<lparr> fs := (if call_fails e c then fs st else apply_call (fs st) c), events := events st @ [c] \<rparr>
   \<and> isl (snd (perform e c st)) = call_fails e c"
  by (cases c)
    (auto simp: mkdirSync_def writeFileSync_def exec_def and_then_def emit_def Let_def
      split: option.splits sum.splits)

lemma run_calls_spec:
  "fst (run_calls e cs st) =
     st\<lparr> fs := foldl apply_call (fs st) (takeWhile (\<lambda>c. \<not> call_fails e c) cs),
         events := events st @ take (Suc (length (takeWhile (\<lambda>c. \<not> call_fails e c) cs))) cs \<rparr>
   \<and> isl (snd (run_calls e cs st)) = (\<exists>c \<in> set cs. call_fails e c)"
proof (induction cs arbitrary: st)
  case Nil
  then show ?case by simp
next
  case (Cons c cs)
  obtain st1 res where p: "perform e c st = (st1, res)" by (cases "perform e c st")
  from perform_spec [of e c st] p
  have st1: "st1 = st\<lparr> fs := (if call_fails e c then fs st else apply_call (fs st) c),
                       events := events st @ [c] \<rparr>"
    and res: "isl res = call_fails e c" by simp_all
  show ?case
  proof (cases res)
    case (Inl msg)
    with res have "call_fails e c" by simp
    then show ?thesis using p Inl st1 by (simp add: and_then_def)
  next
    case (Inr u)
    with res have "\<not> call_fails e c" by simp
    then show ?thesis using p Inr st1 Cons.IH [of st1] by (simp add: and_then_def)
  qed
qed


lemma takeWhile_short:
  "(\<exists>x \<in> set xs. \<not> P x) \<Longrightarrow> length (takeWhile P xs) < length xs"
  by (induction xs) auto

lemma completed_all_ok: "all_ok e cs \<Longrightarrow> completed e cs = cs"
  by (simp add: completed_def all_ok_def list_all_iff takeWhile_eq_all_conv)

lemma completed_append_fail: "\<not> all_ok e cs \<Longrightarrow> completed e (cs @ rest) = completed e cs"
  by (auto simp: completed_def all_ok_def list_all_iff takeWhile_append1)

lemma attempted_append_fail: "\<not> all_ok e cs \<Longrightarrow> attempted e (cs @ rest) = attempted e cs"
proof -
  assume a: "\<not> all_ok e cs"
  then have "length (completed e cs) < length cs"
    unfolding completed_def by (intro takeWhile_short) (auto simp: all_ok_def list_all_iff)
  then show ?thesis
    by (simp add: attempted_def completed_append_fail [OF a])
qed

lemma completed_append_ok: "all_ok e cs \<Longrightarrow> completed e (cs @ rest) = cs @ completed e rest"
  by (auto simp: completed_def all_ok_def list_all_iff takeWhile_append2)

lemma attempted_append_ok: "all_ok e cs \<Longrightarrow> attempted e (cs @ rest) = cs @ attempted e rest"
  by (simp add: attempted_def completed_append_ok)

lemma all_ok_append: "all_ok e (cs @ rest) = (all_ok e cs \<and> all_ok e rest)"
  by (simp add: all_ok_def)

lemma run_calls_fail:
  assumes "\<not> all_ok e cs"
  shows "\<exists>msg. run_calls e cs st =
           (st\<lparr> fs := foldl apply_call (fs st) (completed e cs),
               events := events st @ attempted e cs \<rparr>, Inl msg)"
proof -
  obtain st1 res where r: "run_calls e cs st = (st1, res)" by (cases "run_calls e cs st")
  from assms have "\<exists>c \<in> set cs. call_fails e c"
    by (simp add: all_ok_def list_all_iff)
  with run_calls_spec [of e cs st] r obtain msg where "res = Inl msg"
    by (cases res) auto
  with run_calls_spec [of e cs st] r show ?thesis
    by (simp add: completed_def attempted_def)
qed

lemma run_calls_ok:
  assumes "all_ok e cs"
  shows "run_calls e cs st = (after st cs, Inr ())"
proof -
  obtain st1 res where r: "run_calls e cs st = (st1, res)" by (cases "run_calls e cs st")
  from assms have t: "takeWhile (\<lambda>c. \<not> call_fails e c) cs = cs"
    by (simp add: all_ok_def list_all_iff takeWhile_eq_all_conv)
  from assms have "\<not> (\<exists>c \<in> set cs. call_fails e c)"
    by (simp add: all_ok_def list_all_iff)
  with run_calls_spec [of e cs st] r have "res = Inr ()"
    by (cases res) auto
  with run_calls_spec [of e cs st] r t show ?thesis by (simp add: after_def)
qed

lemma after_append: "after (after st cs) rest = after st (cs @ rest)"
  by (simp add: after_def)

lemma run_steps_ok:
  "all_ok e (concat (map fst steps)) \<Longrightarrow>
   run_steps e steps finish st = finish (after st (concat (map fst steps)))"
proof (induction steps arbitrary: st)
  case Nil
  then show ?case by (simp add: after_def)
next
  case (Cons step steps)
  from Cons.prems have a: "all_ok e (fst step)" and b: "all_ok e (concat (map fst steps))"
    by (simp_all add: all_ok_append)
  show ?case
    by (simp add: try_step_def run_calls_ok [OF a] Cons.IH [OF b] after_append)
qed

lemma run_steps_fail:
  "\<not> all_ok e (concat (map fst steps)) \<Longrightarrow>
   \<exists>msg. run_steps e steps finish st =
     (st\<lparr> fs := foldl apply_call (fs st) (completed e (concat (map fst steps))),
         events := events st @ attempted e (concat (map fst steps)) @ [SpinnerFail msg] \<rparr>,
      Exit 1)"
proof (induction steps arbitrary: st)
  case Nil
  then show ?case by (simp add: all_ok_def)
next
  case (Cons step steps)
  show ?case
  proof (cases "all_ok e (fst step)")
    case False
    obtain msg where r: "run_calls e (fst step) st =
           (st\<lparr> fs := foldl apply_call (fs st) (completed e (fst step)),
               events := events st @ attempted e (fst step) \<rparr>, Inl msg)"
      using run_calls_fail [OF False] by blast
    have "run_steps e (step # steps) finish st =
        (st\<lparr> fs := foldl apply_call (fs st) (completed e (fst step)),
            events := events st @ attempted e (fst step) @ [SpinnerFail (snd step msg)] \<rparr>, Exit 1)"
      using r by (simp add: try_step_def emit_def)
    then have "\<exists>m. run_steps e (step # steps) finish st =
        (st\<lparr> fs := foldl apply_call (fs st) (completed e (fst step)),
            events := events st @ attempted e (fst step) @ [SpinnerFail m] \<rparr>, Exit 1)"
      by blast
    then show ?thesis
      by (simp add: completed_append_fail [OF False] attempted_append_fail [OF False])
  next
    case True
    with Cons.prems have b: "\<not> all_ok e (concat (map fst steps))"
      by (simp add: all_ok_append)
    obtain msg where i: "run_steps e steps finish (after st (fst step)) =
       ((after st (fst step))\<lparr> fs := foldl apply_call (fs (after st (fst step)))
                                        (completed e (concat (map fst steps))),
          events := events (after st (fst step)) @ attempted e (concat (map fst steps))
                      @ [SpinnerFail msg] \<rparr>, Exit 1)"
      using Cons.IH [OF b] by blast
    have "run_steps e (step # steps) finish st = run_steps e steps finish (after st (fst step))"
      by (simp add: try_step_def run_calls_ok [OF True])
    with i have "run_steps e (step # steps) finish st =
        (st\<lparr> fs := foldl apply_call (fs st) (fst step @ completed e (concat (map fst steps))),
            events := events st @ (fst step @ attempted e (concat (map fst steps)))
                        @ [SpinnerFail msg] \<rparr>, Exit 1)"
      by (simp add: after_def)
    then have "\<exists>m. run_steps e (step # steps) finish st =
        (st\<lparr> fs := foldl apply_call (fs st) (fst step @ completed e (concat (map fst steps))),
            events := events st @ (fst step @ attempted e (concat (map fst steps)))
                        @ [SpinnerFail m] \<rparr>, Exit 1)"
      by blast
    then show ?thesis
      by (simp add: completed_append_ok [OF True] attempted_append_ok [OF True])
  qed
qed


lemma run_steps_append:
  "run_steps e (xs @ ys) finish = run_steps e xs (run_steps e ys finish)"
  by (induction xs) simp_all

lemma run_steps_cong:
  "(all_ok e (concat (map fst steps)) \<Longrightarrow>
      finish (after st (concat (map fst steps))) = finish' (after st (concat (map fst steps))))
   \<Longrightarrow> run_steps e steps finish st = run_steps e steps finish' st"
proof (induction steps arbitrary: st)
  case Nil
  then show ?case by (simp add: after_def all_ok_def)
next
  case (Cons step steps)
  show ?case
  proof (cases "all_ok e (fst step)")
    case True
    have "run_steps e steps finish (after st (fst step))
          = run_steps e steps finish' (after st (fst step))"
      using Cons.prems True by (intro Cons.IH) (simp add: after_append all_ok_append)
    then show ?thesis
      by (simp add: try_step_def run_calls_ok [OF True])
  next
    case False
    then obtain msg st1 where "run_calls e (fst step) st = (st1, Inl msg)"
      using run_calls_fail by blast
    then show ?thesis
      by (simp add: try_step_def)
  qed
qed

lemma and_then_unit: "and_then (m :: unit io) (\<lambda>u s. (s, Inr ())) = m"
  by (auto simp: and_then_def fun_eq_iff split: prod.splits sum.splits)

lemma create_dir_machine:
  "\<not> r_useCurrentDir rq \<Longrightarrow> \<not> existsSync st (r_targetDir rq) \<Longrightarrow>
   create_dir_step e rq rest st =
     run_steps e [([Mkdir (r_targetDir rq)], (failure_text ''Failed to create directory: ''))] rest st"
  by (simp add: create_dir_step_def and_then_unit)

lemma readme_machine:
  "readme_step e rq rest =
     run_steps e [([WriteFile (path_join (r_targetDir rq) ''README.md'')
                      (''# '' @ r_projectName rq @ [CHR 0x0A])],
                   (failure_text ''Failed to create README.md: ''))] rest"
  by (simp add: readme_step_def createReadme_def and_then_unit)

lemma git_machine:
  "git_step e rq rest st =
     run_steps e [((if isGitRepo st (r_targetDir rq) then [] else [Exec ''git init'' (Some (r_targetDir rq))])
                   @ [Exec ''git branch -M main'' (Some (r_targetDir rq))],
                   (failure_text ''Failed to initialize git: ''))] rest st"
  by (simp add: git_step_def try_step_def gitInit_def gitRenameBranch_def and_then_def exec_def
      emit_def isGitRepo_def existsSync_def Let_def split: sum.splits)

lemma commit_machine:
  "commit_step e rq rest =
     run_steps e [([Exec ''git add -A'' (Some (r_targetDir rq)),
                    Exec ''git commit -m \"Initial commit\"'' (Some (r_targetDir rq))],
                   (failure_text ''Failed to create commit: ''))] rest"
  by (simp add: commit_step_def try_step_def gitAddAll_def gitCommit_def and_then_def exec_def
      emit_def Let_def fun_eq_iff split: sum.splits)

lemma create_repo_machine:
  "create_repo_step e rq rest =
     run_steps e [(username_lookup rq
                   @ [Exec (''gh repo create '' @ repo_owner e rq @ ''/'' @ r_projectName rq
                            @ '' '' @ visibility_flag (r_isPublic rq)) None],
                   (failure_text ''Failed to create GitHub repo: ''))]
       (rest (''git@github.com:'' @ repo_owner e rq @ ''/'' @ r_projectName rq @ ''.git''))"
  by (cases "r_org rq")
    (simp_all add: create_repo_step_def try_step_def createRepoOnly_def getGhUsername_def
      and_then_def exec_def emit_def Let_def fun_eq_iff username_lookup_def repo_owner_def
      gh_username_def split: sum.splits)

lemma remote_machine:
  "remote_step e rq url rest =
     run_steps e [([Exec (''git remote add origin '' @ url) (Some (r_targetDir rq))],
                   (failure_text ''Failed to add remote: ''))] rest"
  by (simp add: remote_step_def try_step_def gitAddRemote_def and_then_def exec_def
      emit_def Let_def fun_eq_iff split: sum.splits)

lemma push_machine:
  "push_with_identity_step e rq rest st =
     (case identity_selection e (fs st) of
        Inl msg \<Rightarrow> (st, Uncaught msg)
      | Inr v \<Rightarrow> run_steps e [push_step rq] rest st)"
proof -
  have "try_step (gitPush e (r_targetDir rq) ''main'') (failure_text ''Failed to push: '') (\<lambda>out. rest)
        = run_steps e [push_step rq] rest"
    by (simp add: push_step_def try_step_def gitPush_def and_then_def exec_def
      emit_def Let_def fun_eq_iff split: sum.splits)
  then show ?thesis
    by (simp add: push_with_identity_step_def identity_phase split: sum.splits)
qed


lemma workflow_steps_split:
  "workflow_steps e st rq =
     [([Mkdir (r_targetDir rq)], failure_text ''Failed to create directory: ''),
      ([WriteFile (path_join (r_targetDir rq) ''README.md'') (''# '' @ r_projectName rq @ [CHR 0x0A])],
       failure_text ''Failed to create README.md: '')]
     @ [((if existsSync st (path_join (r_targetDir rq) ''.git'') then []
          else [Exec ''git init'' (Some (r_targetDir rq))])
         @ [Exec ''git branch -M main'' (Some (r_targetDir rq))],
         failure_text ''Failed to initialize git: '')]
     @ [([Exec ''git add -A'' (Some (r_targetDir rq)),
          Exec ''git commit -m \"Initial commit\"'' (Some (r_targetDir rq))],
         failure_text ''Failed to create commit: '')]
     @ [(username_lookup rq
         @ [Exec (''gh repo create '' @ repo_owner e rq @ ''/'' @ r_projectName rq
                  @ '' '' @ visibility_flag (r_isPublic rq)) None],
         failure_text ''Failed to create GitHub repo: '')]
     @ [([Exec (''git remote add origin '' @ (''git@github.com:'' @ repo_owner e rq @ ''/''
                  @ r_projectName rq @ ''.git'')) (Some (r_targetDir rq))],
         failure_text ''Failed to add remote: '')]"
  by (simp add: workflow_steps_def Let_def)

lemma init_steps_machine:
  assumes h: "\<not> r_useCurrentDir rq" and d: "\<not> existsSync st (r_targetDir rq)"
  shows "init_steps e rq st =
           run_steps e (workflow_steps e st rq)
             (push_with_identity_step e rq (report_success e rq)) st"
proof -
  let ?dir = "r_targetDir rq"
  let ?two = "[([Mkdir ?dir], failure_text ''Failed to create directory: ''),
      ([WriteFile (path_join ?dir ''README.md'') (''# '' @ r_projectName rq @ [CHR 0x0A])],
       failure_text ''Failed to create README.md: '')]"
  let ?R = "commit_step e rq (create_repo_step e rq (\<lambda>repoUrl.
               remote_step e rq repoUrl (push_with_identity_step e rq (report_success e rq))))"
  let ?s3 = "((if existsSync st (path_join ?dir ''.git'') then [] else [Exec ''git init'' (Some ?dir)])
         @ [Exec ''git branch -M main'' (Some ?dir)],
         failure_text ''Failed to initialize git: '')"
  have "init_steps e rq st = run_steps e ?two (git_step e rq ?R) st"
    by (simp add: init_steps_def create_dir_machine [OF h d] readme_machine)
  also have "\<dots> = run_steps e ?two (run_steps e [?s3] ?R) st"
  proof (rule run_steps_cong)
    have "isGitRepo (after st (concat (map fst ?two))) ?dir = existsSync st (path_join ?dir ''.git'')"
      by (simp add: isGitRepo_def existsSync_def after_def path_join_git)
    then show "git_step e rq ?R (after st (concat (map fst ?two)))
          = run_steps e [?s3] ?R (after st (concat (map fst ?two)))"
      by (simp only: git_machine)
  qed
  also have "\<dots> = run_steps e (workflow_steps e st rq)
                      (push_with_identity_step e rq (report_success e rq)) st"
    unfolding workflow_steps_split run_steps_append
    by (simp only: commit_machine create_repo_machine remote_machine)
  finally show ?thesis .
qed


lemma report_success_ok:
  "all_ok e (username_lookup rq) \<Longrightarrow>
   report_success e rq s = (after s (username_lookup rq), Completed)"
  by (cases "r_org rq")
    (auto simp: report_success_def username_lookup_def all_ok_def bare_call_def getGhUsername_def
      exec_def emit_def after_def Let_def split: sum.splits)

lemma steps_outcome:
  assumes h: "\<not> r_useCurrentDir rq" and d: "\<not> existsSync st (r_targetDir rq)"
  shows "fs (fst (init_steps e rq st)) = foldl apply_call (fs st) (completed e (planned_calls e st rq))"
    and "\<not> all_ok e (butlast (planned_calls e st rq)) \<Longrightarrow>
           (\<exists>msg. events (fst (init_steps e rq st)) =
                    events st @ attempted e (planned_calls e st rq) @ [SpinnerFail msg])
           \<and> snd (init_steps e rq st) = Exit 1"
    and "all_ok e (butlast (planned_calls e st rq)) \<Longrightarrow>
           (case identity_selection e (fs (fst (init_steps e rq st))) of
              Inl msg \<Rightarrow> events (fst (init_steps e rq st)) = events st @ butlast (planned_calls e st rq)
                         \<and> snd (init_steps e rq st) = Uncaught msg
            | Inr v \<Rightarrow>
                if all_ok e (planned_calls e st rq)
                then events (fst (init_steps e rq st)) =
                       events st @ planned_calls e st rq @ username_lookup rq
                     \<and> snd (init_steps e rq st) = Completed
                else (\<exists>msg. events (fst (init_steps e rq st)) =
                              events st @ attempted e (planned_calls e st rq) @ [SpinnerFail msg])
                     \<and> snd (init_steps e rq st) = Exit 1)"
proof -
  let ?ws = "concat (map fst (workflow_steps e st rq))"
  let ?push = "Exec ''git push -u origin main'' (Some (r_targetDir rq))"
  let ?plan = "planned_calls e st rq"
  let ?fin = "push_with_identity_step e rq (report_success e rq)"
  have plan: "?plan = ?ws @ [?push]"
    by (simp add: plan_concat push_step_def)
  have bl: "butlast ?plan = ?ws"
    by (simp add: plan)
  have m: "init_steps e rq st = run_steps e (workflow_steps e st rq) ?fin st"
    by (rule init_steps_machine [OF h d])
  have nofs: "\<And>f. apply_call f ?push = f"
    by simp
  have failed: "(\<exists>msg. events (fst (init_steps e rq st)) = events st @ attempted e ?plan @ [SpinnerFail msg])
              \<and> snd (init_steps e rq st) = Exit 1
              \<and> fs (fst (init_steps e rq st)) = foldl apply_call (fs st) (completed e ?plan)"
    if n: "\<not> all_ok e ?ws"
  proof -
    obtain msg where "init_steps e rq st =
        (st\<lparr> fs := foldl apply_call (fs st) (completed e ?ws),
            events := events st @ attempted e ?ws @ [SpinnerFail msg] \<rparr>, Exit 1)"
      unfolding m using run_steps_fail [OF n] by blast
    then show ?thesis
      by (simp add: plan completed_append_fail [OF n] attempted_append_fail [OF n])
  qed
  have reach: "init_steps e rq st = ?fin (after st ?ws)" if a: "all_ok e ?ws"
    unfolding m by (rule run_steps_ok [OF a])
  have thrown: "init_steps e rq st = (after st ?ws, Uncaught msg)
                \<and> identity_selection e (fs (fst (init_steps e rq st))) = Inl msg"
    if a: "all_ok e ?ws" and i: "identity_selection e (fs (after st ?ws)) = Inl msg" for msg
    using reach [OF a] i by (simp add: push_machine)
  have pushfail: "(\<exists>msg. events (fst (init_steps e rq st)) = events st @ attempted e ?plan @ [SpinnerFail msg])
              \<and> snd (init_steps e rq st) = Exit 1
              \<and> fs (fst (init_steps e rq st)) = fs (after st ?ws)"
    if a: "all_ok e ?ws" and i: "identity_selection e (fs (after st ?ws)) = Inr v"
      and n: "\<not> all_ok e ?plan" for v
  proof -
    from a n have np: "\<not> all_ok e (concat (map fst [push_step rq]))"
      by (simp add: plan all_ok_append push_step_def)
    obtain msg where "init_steps e rq st =
        ((after st ?ws)\<lparr> fs := foldl apply_call (fs (after st ?ws)) (completed e (concat (map fst [push_step rq]))),
            events := events (after st ?ws) @ attempted e (concat (map fst [push_step rq]))
                        @ [SpinnerFail msg] \<rparr>, Exit 1)"
      using reach [OF a] i run_steps_fail [OF np] by (auto simp: push_machine)
    moreover have "completed e (concat (map fst [push_step rq])) = []"
      using np by (simp add: completed_def all_ok_def push_step_def)
    moreover have p1: "attempted e (concat (map fst [push_step rq])) = [?push]"
      by (simp add: attempted_def push_step_def)
    moreover have "attempted e ?plan = ?ws @ [?push]"
      using p1 by (simp add: plan attempted_append_ok [OF a] push_step_def)
    ultimately show ?thesis
      by (simp add: after_def)
  qed
  have finished: "init_steps e rq st = (after st (?plan @ username_lookup rq), Completed)"
    if a: "all_ok e ?plan" and i: "identity_selection e (fs (after st ?ws)) = Inr v" for v
  proof -
    from a have w: "all_ok e ?ws" and p: "all_ok e (concat (map fst [push_step rq]))"
      by (simp_all add: plan all_ok_append push_step_def)
    have u: "all_ok e (username_lookup rq)"
      using w by (cases "r_org rq")
        (simp_all add: workflow_steps_def username_lookup_def all_ok_def Let_def)
    have "init_steps e rq st = report_success e rq (after (after st ?ws) (concat (map fst [push_step rq])))"
      using reach [OF w] i run_steps_ok [OF p] by (simp add: push_machine)
    then show ?thesis
      by (simp add: report_success_ok [OF u] after_append plan push_step_def)
  qed
  show "fs (fst (init_steps e rq st)) = foldl apply_call (fs st) (completed e ?plan)"
  proof (cases "all_ok e ?ws")
    case False
    then show ?thesis using failed by blast
  next
    case True
    have c1: "completed e ?plan = ?ws @ completed e [?push]"
      unfolding plan by (rule completed_append_ok [OF True])
    have c2: "\<And>f. foldl apply_call f (completed e [?push]) = f"
      by (simp add: completed_def)
    have c: "foldl apply_call (fs st) (completed e ?plan) = fs (after st ?ws)"
      by (simp add: c1 c2 after_def)
    show ?thesis
    proof (cases "identity_selection e (fs (after st ?ws))")
      case (Inl msg)
      then show ?thesis using thrown [OF True Inl] c by simp
    next
      case (Inr v)
      show ?thesis
      proof (cases "all_ok e ?plan")
        case False
        then show ?thesis using pushfail [OF True Inr False] c by simp
      next
        case all: True
        show ?thesis using finished [OF all Inr] c
          by (simp add: after_def plan) (cases "r_org rq"; simp add: username_lookup_def)
      qed
    qed
  qed
  show "(\<exists>msg. events (fst (init_steps e rq st)) = events st @ attempted e ?plan @ [SpinnerFail msg])
        \<and> snd (init_steps e rq st) = Exit 1"
    if "\<not> all_ok e (butlast ?plan)"
    using that failed by (simp add: bl)
  show "case identity_selection e (fs (fst (init_steps e rq st))) of
              Inl msg \<Rightarrow> events (fst (init_steps e rq st)) = events st @ butlast ?plan
                         \<and> snd (init_steps e rq st) = Uncaught msg
            | Inr v \<Rightarrow>
                if all_ok e ?plan
                then events (fst (init_steps e rq st)) = events st @ ?plan @ username_lookup rq
                     \<and> snd (init_steps e rq st) = Completed
                else (\<exists>msg. events (fst (init_steps e rq st)) =
                              events st @ attempted e ?plan @ [SpinnerFail msg])
                     \<and> snd (init_steps e rq st) = Exit 1"
    if "all_ok e (butlast ?plan)"
  proof -
    from that have a: "all_ok e ?ws" by (simp add: bl)
    show ?thesis
    proof (cases "identity_selection e (fs (after st ?ws))")
      case (Inl msg)
      then show ?thesis using thrown [OF a Inl] by (simp add: bl after_def)
    next
      case (Inr v)
      show ?thesis
      proof (cases "all_ok e ?plan")
        case False
        then show ?thesis using pushfail [OF a Inr False] Inr by simp
      next
        case all: True
        have "fs (after st (?plan @ username_lookup rq)) = fs (after st ?ws)"
          by (simp add: after_def plan) (cases "r_org rq"; simp add: username_lookup_def)
        then show ?thesis using finished [OF all Inr] Inr all by (simp add: after_def)
      qed
    qed
  qed
qed


lemma planned_calls_fs: "fs st1 = fs st \<Longrightarrow> planned_calls e st1 rq = planned_calls e st rq"
  by (simp add: planned_calls_def existsSync_def)

lemma init_reaches_steps:
  assumes v: "validateProjectName projectName = Inr name"
    and l: "loadConfig e st = (st0, Inr config)"
    and o: "check_org (resolve_org options config) = Inr org"
    and h: "\<not> opt_here options"
    and p: "preflight_ok e org name"
  shows "initCommand e projectName options st =
           init_steps e (init_request e options config name org)
             (st0\<lparr> events := events st0 @ preflight_calls (init_request e options config name org) \<rparr>)"
proof -
  let ?rq = "init_request e options config name org"
  have r: "r_projectName ?rq = name" "r_org ?rq = org" "\<not> r_useCurrentDir ?rq"
    using h by (simp_all add: init_request_def)
  have "preflight e ?rq (safety_checks ?rq (init_steps e ?rq)) st0 =
          init_steps e ?rq (st0\<lparr> events := events st0 @ preflight_calls ?rq \<rparr>)"
    using p r
    by (auto simp: preflight_def preflight_ok_def isGhInstalled_def isGhAuthenticated_def
        repoExists_def succeeds_def exec_def emit_def Let_def safety_checks_def preflight_calls_def
        split: sum.splits)
  then show ?thesis
    using v l o by (simp add: initCommand_def bare_call_def Let_def)
qed

text \<open>
  What holds of the workflow. A run of \<^verbatim>\<open>init\<close> without \<^verbatim>\<open>--here\<close>, with a valid
  name and organization, whose preflight checks pass and whose target directory does not
  exist, makes the calls of \<^const>\<open>planned_calls\<close> in that order after the preflight
  queries. When a call fails, the run has made the calls up to that one and no other,
  reports the failure and exits with status 1. When all succeed and the choice of the SSH
  identity returns, the run completes after the success message's lookup of the user's name.
  When the choice of the SSH identity throws, the run ends before the push. In every case
  the file system at the end is the one at the start with the effects of the completed
  calls.
\<close>

theorem init_workflow_order:
  assumes v: "validateProjectName projectName = Inr name"
    and l: "snd (loadConfig e st) = Inr config"
    and o: "check_org (resolve_org options config) = Inr org"
    and h: "\<not> opt_here options"
    and p: "preflight_ok e org name"
    and d: "\<not> existsSync st (path_join (cwd e) name)"
  shows "let rq = init_request e options config name org;
             plan = planned_calls e st rq;
             start = events (fst (loadConfig e st)) @ preflight_calls rq;
             r = initCommand e projectName options st
         in fs (fst r) = foldl apply_call (fs st) (completed e plan)
            \<and> (\<not> all_ok e (butlast plan) \<longrightarrow>
                 (\<exists>msg. events (fst r) = start @ attempted e plan @ [SpinnerFail msg])
                 \<and> snd r = Exit 1)
            \<and> (all_ok e (butlast plan) \<longrightarrow>
                 (case identity_selection e (fs (fst r)) of
                    Inl msg \<Rightarrow> events (fst r) = start @ butlast plan \<and> snd r = Uncaught msg
                  | Inr v \<Rightarrow>
                      if all_ok e plan
                      then events (fst r) = start @ plan @ username_lookup rq \<and> snd r = Completed
                      else (\<exists>msg. events (fst r) = start @ attempted e plan @ [SpinnerFail msg])
                           \<and> snd r = Exit 1))"
proof -
  let ?rq = "init_request e options config name org"
  obtain c warns where le: "loadConfig e st = (st\<lparr> events := events st @ warns \<rparr>, Inr c)"
    using loadConfig_effect by blast
  with l have c: "c = config" by simp
  let ?st0 = "st\<lparr> events := events st @ warns \<rparr>"
  let ?st1 = "?st0\<lparr> events := events ?st0 @ preflight_calls ?rq \<rparr>"
  have run: "initCommand e projectName options st = init_steps e ?rq ?st1"
    using init_reaches_steps [OF v le [unfolded c] o h p] .
  have nh: "\<not> r_useCurrentDir ?rq" and dir: "r_targetDir ?rq = path_join (cwd e) name"
    using h by (simp_all add: init_request_def)
  have nd: "\<not> existsSync ?st1 (r_targetDir ?rq)"
    using d by (simp add: dir existsSync_def)
  have pl: "planned_calls e ?st1 ?rq = planned_calls e st ?rq"
    by (rule planned_calls_fs) simp
  have ev: "events ?st1 = events (fst (loadConfig e st)) @ preflight_calls ?rq"
    by (simp add: le)
  have f: "fs ?st1 = fs st"
    by simp
  note out = steps_outcome [OF nh nd, of e, unfolded pl ev f, folded run]
  show ?thesis
    unfolding Let_def using out by (simp only: append_assoc) blast
qed

theorem init_workflow_order_witness:
  "snd (initCommand sample_env ''demo'' no_flags empty_state) = Completed
   \<and> events (fst (initCommand sample_env ''demo'' no_flags empty_state)) =
       preflight_calls (sample_request sample_env)
       @ planned_calls sample_env empty_state (sample_request sample_env)
       @ username_lookup (sample_request sample_env)
   \<and> planned_calls sample_env empty_state (sample_request sample_env) =
       [Mkdir ''/work/demo'',
        WriteFile ''/work/demo/README.md'' (''# demo'' @ [CHR 0x0A]),
        Exec ''git init'' (Some ''/work/demo''),
        Exec ''git branch -M main'' (Some ''/work/demo''),
        Exec ''git add -A'' (Some ''/work/demo''),
        Exec ''git commit -m \"Initial commit\"'' (Some ''/work/demo''),
        Exec ''gh api user --jq .login'' None,
        Exec ''gh repo create alice/demo --private'' None,
        Exec ''git remote add origin git@github.com:alice/demo.git'' (Some ''/work/demo''),
        Exec ''git push -u origin main'' (Some ''/work/demo'')]
   \<and> snd (initCommand commit_fails_env ''demo'' no_flags empty_state) = Exit 1
   \<and> (\<exists>msg. events (fst (initCommand commit_fails_env ''demo'' no_flags empty_state)) =
         preflight_calls (sample_request commit_fails_env)
         @ [Mkdir ''/work/demo'',
            WriteFile ''/work/demo/README.md'' (''# demo'' @ [CHR 0x0A]),
            Exec ''git init'' (Some ''/work/demo''),
            Exec ''git branch -M main'' (Some ''/work/demo''),
            Exec ''git add -A'' (Some ''/work/demo''),
            Exec ''git commit -m \"Initial commit\"'' (Some ''/work/demo'')]
         @ [SpinnerFail msg])
   \<and> fs (fst (initCommand commit_fails_env ''demo'' no_flags empty_state)) =
       [''/work/demo'' \<mapsto> Dir, ''/work/demo/README.md'' \<mapsto> File (''# demo'' @ [CHR 0x0A])]"
proof -
  have v: "validateProjectName ''demo'' = Inr ''demo''"
    by code_simp
  have h: "\<not> opt_here no_flags"
    by code_simp
  have o: "check_org (resolve_org no_flags DEFAULT_CONFIG) = Inr None"
    by code_simp
  have d: "\<not> existsSync empty_state (path_join ''/work'' ''demo'')"
    by code_simp
  have l1: "snd (loadConfig sample_env empty_state) = Inr DEFAULT_CONFIG"
    and p1: "preflight_ok sample_env None ''demo''"
    and c1: "cwd sample_env = ''/work''"
    by code_simp+
  have l2: "snd (loadConfig commit_fails_env empty_state) = Inr DEFAULT_CONFIG"
    and p2: "preflight_ok commit_fails_env None ''demo''"
    and c2: "cwd commit_fails_env = ''/work''"
    by code_simp+
  have e1: "events (fst (loadConfig sample_env empty_state)) = []"
    and e2: "events (fst (loadConfig commit_fails_env empty_state)) = []"
    by code_simp+
  have plan1: "planned_calls sample_env empty_state (sample_request sample_env) =
       [Mkdir ''/work/demo'',
        WriteFile ''/work/demo/README.md'' (''# demo'' @ [CHR 0x0A]),
        Exec ''git init'' (Some ''/work/demo''),
        Exec ''git branch -M main'' (Some ''/work/demo''),
        Exec ''git add -A'' (Some ''/work/demo''),
        Exec ''git commit -m \"Initial commit\"'' (Some ''/work/demo''),
        Exec ''gh api user --jq .login'' None,
        Exec ''gh repo create alice/demo --private'' None,
        Exec ''git remote add origin git@github.com:alice/demo.git'' (Some ''/work/demo''),
        Exec ''git push -u origin main'' (Some ''/work/demo'')]"
    by code_simp
  have ok1: "all_ok sample_env (planned_calls sample_env empty_state (sample_request sample_env))"
    and okb1: "all_ok sample_env (butlast (planned_calls sample_env empty_state (sample_request sample_env)))"
    and id1: "identity_selection sample_env
                (foldl apply_call (fs empty_state)
                  (completed sample_env (planned_calls sample_env empty_state (sample_request sample_env))))
              = Inr None"
    by code_simp+
  have n2: "\<not> all_ok commit_fails_env
               (butlast (planned_calls commit_fails_env empty_state (sample_request commit_fails_env)))"
    by code_simp
  have a2: "attempted commit_fails_env
              (planned_calls commit_fails_env empty_state (sample_request commit_fails_env)) =
           [Mkdir ''/work/demo'',
            WriteFile ''/work/demo/README.md'' (''# demo'' @ [CHR 0x0A]),
            Exec ''git init'' (Some ''/work/demo''),
            Exec ''git branch -M main'' (Some ''/work/demo''),
            Exec ''git add -A'' (Some ''/work/demo''),
            Exec ''git commit -m \"Initial commit\"'' (Some ''/work/demo'')]"
    by code_simp
  have k2: "completed commit_fails_env
              (planned_calls commit_fails_env empty_state (sample_request commit_fails_env)) =
           [Mkdir ''/work/demo'',
            WriteFile ''/work/demo/README.md'' (''# demo'' @ [CHR 0x0A]),
            Exec ''git init'' (Some ''/work/demo''),
            Exec ''git branch -M main'' (Some ''/work/demo''),
            Exec ''git add -A'' (Some ''/work/demo'')]"
    by code_simp
  have f2: "foldl apply_call (fs empty_state)
              (completed commit_fails_env
                (planned_calls commit_fails_env empty_state (sample_request commit_fails_env))) =
            [''/work/demo'' \<mapsto> Dir, ''/work/demo/README.md'' \<mapsto> File (''# demo'' @ [CHR 0x0A])]"
    unfolding k2 by (simp add: empty_state_def)
  note run1 = init_workflow_order [OF v l1 o h p1 d [folded c1], unfolded Let_def,
      folded sample_request_def, unfolded e1]
  note run2 = init_workflow_order [OF v l2 o h p2 d [folded c2], unfolded Let_def,
      folded sample_request_def, unfolded e2]
  from run1 have fs1: "fs (fst (initCommand sample_env ''demo'' no_flags empty_state)) =
      foldl apply_call (fs empty_state)
        (completed sample_env (planned_calls sample_env empty_state (sample_request sample_env)))"
    by blast
  from run1 okb1 ok1 id1 [folded fs1]
  have r1: "events (fst (initCommand sample_env ''demo'' no_flags empty_state)) =
       preflight_calls (sample_request sample_env)
       @ planned_calls sample_env empty_state (sample_request sample_env)
       @ username_lookup (sample_request sample_env)
      \<and> snd (initCommand sample_env ''demo'' no_flags empty_state) = Completed"
    by simp
  from run2 n2 a2 f2
  have r2: "snd (initCommand commit_fails_env ''demo'' no_flags empty_state) = Exit 1
   \<and> (\<exists>msg. events (fst (initCommand commit_fails_env ''demo'' no_flags empty_state)) =
         preflight_calls (sample_request commit_fails_env)
         @ [Mkdir ''/work/demo'',
            WriteFile ''/work/demo/README.md'' (''# demo'' @ [CHR 0x0A]),
            Exec ''git init'' (Some ''/work/demo''),
            Exec ''git branch -M main'' (Some ''/work/demo''),
            Exec ''git add -A'' (Some ''/work/demo''),
            Exec ''git commit -m \"Initial commit\"'' (Some ''/work/demo'')]
         @ [SpinnerFail msg])
   \<and> fs (fst (initCommand commit_fails_env ''demo'' no_flags empty_state)) =
       [''/work/demo'' \<mapsto> Dir, ''/work/demo/README.md'' \<mapsto> File (''# demo'' @ [CHR 0x0A])]"
    by simp
  from r1 r2 plan1 show ?thesis
    by blast
qed


end
